theory Spec2Isabelle
  imports Main "HOL-Library.Word"
begin

section \<open>Go values shared by the two programs\<close>

text \<open>
  The repository holds two versions of one command-line tool. \<^verbatim>\<open>src/unnamed/part_000\<close>
  (the spec's direct variant, names suffixed \<open>_direct\<close> below) selects raw certificates and
  parses them; \<^verbatim>\<open>src/main.go\<close> (the aggregated variant, suffix \<open>_aggregated\<close>) selects
  eight text columns and logs them. Both talk to the outside world through
  \<^verbatim>\<open>database/sql\<close>, \<^verbatim>\<open>flag\<close>, \<^verbatim>\<open>log\<close>, \<^verbatim>\<open>crypto/x509\<close> and \<^verbatim>\<open>encoding/pem\<close>.
  What those packages answer is an input of the model (a record of outcomes), what the
  programs do with the answers is translated statement by statement.

  A Go \<^verbatim>\<open>error\<close> is \<open>err option\<close>: \<open>None\<close> is \<^verbatim>\<open>nil\<close>. \<open>Err s\<close> is an error made
  outside the programs (or by \<^verbatim>\<open>errors.New\<close>) with message \<open>s\<close>; \<open>Wrap f e\<close> is
  what \<^verbatim>\<open>fmt.Errorf\<close> makes of the error \<open>e\<close>: \<open>f\<close> is the format with its \<^verbatim>\<open>%v\<close> filled in
  and its \<^verbatim>\<open>%w\<close> left standing for \<open>e\<close>; \<open>Multi es\<close> is the aggregate that
  \<^verbatim>\<open>multierror.Append\<close> builds.
\<close>

type_synonym byte = "8 word"
type_synonym bytes = "byte list"

datatype err = Err string | Wrap string err | Multi "err list"

type_synonym error = "err option"

fun errors_of :: "err \<Rightarrow> err list" where
  "errors_of (Multi es) = es"
| "errors_of e = [e]"

primrec non_nil :: "error list \<Rightarrow> err list" where
  "non_nil [] = []"
| "non_nil (x # xs) = (case x of None \<Rightarrow> non_nil xs | Some e \<Rightarrow> e # non_nil xs)"

text \<open>
  Modelled from the spec: \<^verbatim>\<open>multierror.Append\<close> of the imported package
  \<^verbatim>\<open>github.com/simplylib/multierror\<close>, whose source is not in the repository. The spec
  describes "an explicit multi-error container that accumulates zero or more sub-errors
  and exposes them as a single reportable failure": the sub-errors of the first argument
  are kept, every non-nil further argument is added after them, and with nothing to
  report the result is \<^verbatim>\<open>nil\<close>.
\<close>

definition Append :: "error \<Rightarrow> error list \<Rightarrow> error" where
  "Append err errs =
     (let es = (case err of None \<Rightarrow> [] | Some e \<Rightarrow> errors_of e) @ non_nil errs
      in if es = [] then None else Some (Multi es))"

text \<open>\<open>mentions e x\<close>: the error \<open>x\<close> is \<open>e\<close> or is held somewhere inside \<open>e\<close>.\<close>

fun mentions :: "err \<Rightarrow> err \<Rightarrow> bool" where
  "mentions (Err s) x = (x = Err s)"
| "mentions (Wrap f e) x = (x = Wrap f e \<or> mentions e x)"
| "mentions (Multi es) x = (x = Multi es \<or> (\<exists>e \<in> set es. mentions e x))"

subsection \<open>The calls made and the lines logged\<close>

text \<open>
  Every call into \<^verbatim>\<open>database/sql\<close> is recorded, in order, so that "no network call"
  and "released on every exit path" are statements about a list.
\<close>

datatype call =
    Sql_Open string string
  | DB_Close
  | DB_PrepareContext string
  | DB_QueryContext string string int
  | Stmt_QueryContext string int
  | Stmt_Close
  | Rows_Columns
  | Rows_Next
  | Rows_Scan
  | Rows_Close

text \<open>The eight string variables that \<^verbatim>\<open>rows.Scan\<close> fills in \<^verbatim>\<open>src/main.go\<close>.\<close>

record row =
  one :: string
  two :: string
  three :: string
  four :: string
  five :: string
  six :: string
  seven :: string
  eight :: string

text \<open>
  What \<^verbatim>\<open>x509.ParseCertificate\<close> returns, as far as the program reads it; the time is in
  seconds since 1970-01-01 00:00:00 UTC.
\<close>

record Certificate =
  CommonName :: string
  NotBefore :: int

text \<open>
  Everything the programs print goes to the error stream: the standard logger and the
  \<^verbatim>\<open>flag\<close> package both write there. One constructor per print statement.
\<close>

datatype line =
    Log_Type err
  | Log_Row row
  | Log_Certs "string list"
  | Log_Cert string int
  | Pem_Block string bytes
  | Flag_Error string
  | Usage_Text string
  | Log_Fatal err

text \<open>
  A result cursor: each element is one \<^verbatim>\<open>rows.Next()\<close> that returned true, with what the
  following \<^verbatim>\<open>rows.Scan\<close> does; at the end of the list \<^verbatim>\<open>rows.Next()\<close> returns false.
  Whether the rows were exhausted or reading them stopped early is what \<^verbatim>\<open>rows.Err()\<close>
  tells; it is the field \<open>rows_err\<close> of the record below.
\<close>

datatype 'r scan = Scanned 'r | Scan_Failed err

text \<open>
  The answers of \<^verbatim>\<open>database/sql\<close>. The context argument is left out: whether and when a
  call fails, by cancellation or otherwise, is part of these answers. The goroutine of
  \<^verbatim>\<open>run\<close> that waits for a signal, logs two lines and cancels the context is not
  modelled, nor is the time at which a signal arrives. \<open>db_query\<close> answers
  a statement text with its two parameters, whether sent by \<^verbatim>\<open>db.QueryContext\<close> or
  prepared first and sent by \<^verbatim>\<open>stmt.QueryContext\<close>. \<open>rows_err\<close> is what \<^verbatim>\<open>rows.Err()\<close>
  would return once \<^verbatim>\<open>rows.Next()\<close> has returned false: \<^verbatim>\<open>nil\<close> when the rows were read to
  their end, the error (a cancelled context, a lost connection) when reading them was cut
  short. Neither program makes that call, so no definition below reads the field; it is
  there to say of a run which of the two happened.
\<close>

record 'r driver =
  sql_open :: error
  db_close :: error
  db_prepare :: "string \<Rightarrow> error"
  db_query :: "string \<Rightarrow> string \<Rightarrow> int \<Rightarrow> err + 'r scan list"
  stmt_close :: error
  rows_columns :: error
  rows_close :: error
  rows_err :: error

section \<open>The direct variant (\<^verbatim>\<open>src/unnamed/part_000\<close>)\<close>

definition certificateQuery_direct :: string where
  "certificateQuery_direct =
     ''SELECT certificate FROM certificate_and_identities WHERE name_value LIKE $1 ORDER BY certificate_id DESC LIMIT $2;''"

definition dsn_direct :: string where
  "dsn_direct = ''host=crt.sh user=guest dbname=certwatch binary_parameters=yes''"

text \<open>
  The loop \<^verbatim>\<open>for rows.Next() { err = rows.Scan(&der); ...; ders = append(ders, der) }\<close>.
  The result is the calls made and the values of the named results \<^verbatim>\<open>certs\<close> and
  \<^verbatim>\<open>err\<close> as the \<^verbatim>\<open>return\<close> statement sets them. A nil slice and an empty one are both
  \<open>[]\<close>.
\<close>

fun scan_ders :: "bytes scan list \<Rightarrow> bytes list \<Rightarrow> call list \<times> bytes list \<times> error" where
  "scan_ders [] ders = ([Rows_Next], ders, None)"
| "scan_ders (Scanned der # rs) ders =
     (case scan_ders rs (ders @ [der]) of
        (cs, res) \<Rightarrow> (Rows_Next # Rows_Scan # cs, res))"
| "scan_ders (Scan_Failed e # rs) ders =
     ([Rows_Next, Rows_Scan], [], Some (Wrap ''could not scan row (%w)'' e))"

text \<open>
  \<^verbatim>\<open>getCertificates\<close> has named results, so its deferred closures assign the \<^verbatim>\<open>err\<close>
  that is returned. They run last-registered first: \<^verbatim>\<open>rows.Close()\<close>, then
  \<^verbatim>\<open>db.Close()\<close>; the former appends unconditionally, the latter only a non-nil error.
\<close>

definition getCertificates_direct ::
  "bytes driver \<Rightarrow> string \<Rightarrow> int \<Rightarrow> call list \<times> bytes list \<times> error" where
  "getCertificates_direct env domainName limit =
     (case sql_open env of
        Some e \<Rightarrow>
          ([Sql_Open ''postgres'' dsn_direct], [],
           Some (Wrap ''could not open SQL connection to postgres at crt.sh due to error (%w)'' e))
      | None \<Rightarrow>
          (case
             (case db_query env certificateQuery_direct domainName limit of
                Inl e \<Rightarrow>
                  ([DB_QueryContext certificateQuery_direct domainName limit], [],
                   Some (Wrap ''could not execute SQL on postgres for finding certificates (%w)'' e))
              | Inr rs \<Rightarrow>
                  (case scan_ders rs [] of
                     (cs, certs, err) \<Rightarrow>
                       (DB_QueryContext certificateQuery_direct domainName limit # cs @ [Rows_Close],
                        certs, Append err [rows_close env])))
           of (cs, certs, err) \<Rightarrow>
             (Sql_Open ''postgres'' dsn_direct # cs @ [DB_Close], certs,
              (case db_close env of None \<Rightarrow> err | Some err2 \<Rightarrow> Append err [Some err2]))))"

subsection \<open>Flags, the certificate codec and \<^verbatim>\<open>run\<close>\<close>

text \<open>
  \<^verbatim>\<open>flag.Parse()\<close> either leaves the process (the \<^verbatim>\<open>flag\<close> package prints a message,
  then calls the \<^verbatim>\<open>Usage\<close> closure that \<^verbatim>\<open>run\<close> installed, then exits with a status of
  its own), or it returns with the flags set and the positional arguments counted.
\<close>

text \<open>The fields are the flags \<^verbatim>\<open>-v\<close>, \<^verbatim>\<open>-n\<close> and \<^verbatim>\<open>-pem\<close> and \<^verbatim>\<open>flag.Args()\<close>.\<close>

record flags =
  flag_v :: bool
  flag_n :: int
  args :: "string list"

record flags_pem = flags +
  flag_pem :: bool

datatype 'f parsed = Flag_Exit "string option" nat | Parsed 'f

record codec =
  ParseCertificate :: "bytes \<Rightarrow> err + Certificate"
  pem_Encode :: "string \<Rightarrow> bytes \<Rightarrow> error"

text \<open>
  What a call of \<^verbatim>\<open>run\<close> leaves behind: the logger's flags, the calls made, the lines
  printed, whether the process exited inside \<^verbatim>\<open>run\<close>, and the error returned.
\<close>

record run_result =
  log_flags :: nat
  calls :: "call list"
  out :: "line list"
  exited :: "nat option"
  returned :: error

record process = run_result +
  status :: nat

definition LstdFlags :: nat where "LstdFlags = 3"

definition Lshortfile :: nat where "Lshortfile = 16"

definition errExpectedArguments :: err where
  "errExpectedArguments = Err ''expected 1 argument: domain name''"

definition flag_exit :: "string \<Rightarrow> string option \<Rightarrow> nat \<Rightarrow> run_result" where
  "flag_exit prog msg n =
     \<lparr>log_flags = 0, calls = [],
      out = (case msg of None \<Rightarrow> [] | Some m \<Rightarrow> [Flag_Error m]) @ [Usage_Text prog],
      exited = Some n, returned = None\<rparr>"

text \<open>
  The loop over \<^verbatim>\<open>ders\<close> in \<^verbatim>\<open>run\<close>: parse, log the entry, and with \<^verbatim>\<open>-pem\<close> write the
  PEM block; the first failure returns. A PEM block is recorded when the write succeeded.
\<close>

fun print_ders :: "codec \<Rightarrow> bool \<Rightarrow> bytes list \<Rightarrow> line list \<times> error" where
  "print_ders cx pem [] = ([], None)"
| "print_ders cx pem (der # ders) =
     (case ParseCertificate cx der of
        Inl e \<Rightarrow> ([], Some (Wrap ''could not parse x509 certificate (%w)'' e))
      | Inr cert \<Rightarrow>
          (if pem then
             (case pem_Encode cx ''CERTIFICATE'' der of
                Some e \<Rightarrow>
                  ([Log_Cert (CommonName cert) (NotBefore cert)],
                   Some (Wrap ''could not encode PEM (%w)'' e))
              | None \<Rightarrow>
                  (case print_ders cx pem ders of
                     (ls, r) \<Rightarrow>
                       (Log_Cert (CommonName cert) (NotBefore cert) #
                        Pem_Block ''CERTIFICATE'' der # ls, r)))
           else
             (case print_ders cx pem ders of
                (ls, r) \<Rightarrow> (Log_Cert (CommonName cert) (NotBefore cert) # ls, r))))"

definition run_direct ::
  "bytes driver \<Rightarrow> codec \<Rightarrow> string \<Rightarrow> flags_pem parsed \<Rightarrow> run_result" where
  "run_direct env cx prog cmdline =
     (case cmdline of
        Flag_Exit msg n \<Rightarrow> flag_exit prog msg n
      | Parsed f \<Rightarrow>
          (let lf = (if flag_v f then or LstdFlags Lshortfile else 0) in
           if length (args f) \<noteq> 1 then
             \<lparr>log_flags = lf, calls = [], out = [], exited = None,
              returned = Some errExpectedArguments\<rparr>
           else
             (case getCertificates_direct env (args f ! 0) (flag_n f) of
                (cs, ders, Some e) \<Rightarrow>
                  \<lparr>log_flags = lf, calls = cs, out = [], exited = None,
                   returned =
                     Some (Wrap (''could not getCertificates of ('' @ args f ! 0 @ '') error (%w)'') e)\<rparr>
              | (cs, ders, None) \<Rightarrow>
                  (case print_ders cx (flag_pem f) ders of
                     (ls, r) \<Rightarrow>
                       \<lparr>log_flags = lf, calls = cs, out = ls, exited = None, returned = r\<rparr>))))"

text \<open>
  \<^verbatim>\<open>main\<close>: \<^verbatim>\<open>log.Fatal(err)\<close> prints the error and exits with status 1; a \<^verbatim>\<open>run\<close> that
  returns nil ends the process with status 0.
\<close>

definition with_status :: "run_result \<Rightarrow> nat \<Rightarrow> process" where
  "with_status r n =
     \<lparr>log_flags = log_flags r, calls = calls r, out = out r, exited = exited r,
      returned = returned r, status = n\<rparr>"

definition finish :: "run_result \<Rightarrow> process" where
  "finish r =
     (case exited r of
        Some n \<Rightarrow> with_status r n
      | None \<Rightarrow>
          (case returned r of
             None \<Rightarrow> with_status r 0
           | Some e \<Rightarrow> with_status (r\<lparr>out := out r @ [Log_Fatal e]\<rparr>) 1))"

definition main_direct ::
  "bytes driver \<Rightarrow> codec \<Rightarrow> string \<Rightarrow> flags_pem parsed \<Rightarrow> process" where
  "main_direct env cx prog cmdline = finish (run_direct env cx prog cmdline)"

section \<open>The aggregated variant (\<^verbatim>\<open>src/main.go\<close>)\<close>

definition certificateQuery_aggregated :: string where
  "certificateQuery_aggregated =
      ''\<newline>'' @
      ''WITH ci AS (\<newline>'' @
      ''    SELECT min(sub.CERTIFICATE_ID) ID,\<newline>'' @
      ''           min(sub.ISSUER_CA_ID) ISSUER_CA_ID,\<newline>'' @
      ''           array_agg(DISTINCT sub.NAME_VALUE) NAME_VALUES,\<newline>'' @
      ''           x509_commonName(sub.CERTIFICATE) COMMON_NAME,\<newline>'' @
      ''           x509_notBefore(sub.CERTIFICATE) NOT_BEFORE,\<newline>'' @
      ''           x509_notAfter(sub.CERTIFICATE) NOT_AFTER,\<newline>'' @
      ''           encode(x509_serialNumber(sub.CERTIFICATE), 'hex') SERIAL_NUMBER\<newline>'' @
      ''        FROM (SELECT *\<newline>'' @
      ''                  FROM certificate_and_identities cai\<newline>'' @
      ''                  WHERE plainto_tsquery('certwatch', $1) @@ identities(cai.CERTIFICATE)\<newline>'' @
      ''                      AND cai.NAME_VALUE ILIKE ('%' || $1 || '%')\<newline>'' @
      ''                      AND cai.NAME_TYPE = '2.5.4.3' -- commonName\<newline>'' @
      ''             ) sub\<newline>'' @
      ''        GROUP BY sub.CERTIFICATE\<newline>'' @
      '')\<newline>'' @
      ''SELECT ci.ISSUER_CA_ID,\<newline>'' @
      ''        ca.NAME ISSUER_NAME,\<newline>'' @
      ''        array_to_string(ci.NAME_VALUES, chr(10)) NAME_VALUE,\<newline>'' @
      ''        ci.ID ID,\<newline>'' @
      ''        le.ENTRY_TIMESTAMP,\<newline>'' @
      ''        ci.NOT_BEFORE,\<newline>'' @
      ''        ci.NOT_AFTER,\<newline>'' @
      ''        ci.SERIAL_NUMBER\<newline>'' @
      ''    FROM ci\<newline>'' @
      ''            LEFT JOIN LATERAL (\<newline>'' @
      ''                SELECT min(ctle.ENTRY_TIMESTAMP) ENTRY_TIMESTAMP\<newline>'' @
      ''                    FROM ct_log_entry ctle\<newline>'' @
      ''                    WHERE ctle.CERTIFICATE_ID = ci.ID\<newline>'' @
      ''            ) le ON TRUE,\<newline>'' @
      ''         ca\<newline>'' @
      ''    WHERE ci.ISSUER_CA_ID = ca.ID\<newline>'' @
      ''    ORDER BY le.ENTRY_TIMESTAMP DESC NULLS LAST LIMIT $2;\<newline>''"

definition dsn_aggregated :: string where
  "dsn_aggregated = ''host=crt.sh user=guest dbname=certwatch''"

text \<open>
  Here \<^verbatim>\<open>getCertificates\<close> has unnamed results \<^verbatim>\<open>([]string, error)\<close> and a local variable
  \<^verbatim>\<open>err\<close>. A \<^verbatim>\<open>return\<close> statement stores its operands in the results before the deferred
  closures run, and the closures assign the local \<^verbatim>\<open>err\<close>. The model keeps the two
  apart: each step yields the calls, the lines logged, the results \<open>ret\<close> as the
  \<^verbatim>\<open>return\<close> statement set them, and the local \<open>err\<close>; the closures change the last
  component only, and the function hands back \<open>ret\<close>.

  The loop \<^verbatim>\<open>for rows.Next() { err = rows.Scan(&one, ..., &eight); ...; log.Println(...) }\<close>
  collects nothing; after it the function returns \<^verbatim>\<open>nil, nil\<close>.
\<close>

fun scan_rows ::
  "row scan list \<Rightarrow> call list \<times> line list \<times> (string list \<times> error) \<times> error" where
  "scan_rows [] = ([Rows_Next], [], ([], None), None)"
| "scan_rows (Scanned r # rs) =
     (case scan_rows rs of
        (cs, ls, res) \<Rightarrow> (Rows_Next # Rows_Scan # cs, Log_Row r # ls, res))"
| "scan_rows (Scan_Failed e # rs) =
     ([Rows_Next, Rows_Scan], [], ([], Some (Wrap ''could not scan row (%w)'' e)), Some e)"

definition getCertificates_aggregated ::
  "row driver \<Rightarrow> string \<Rightarrow> int \<Rightarrow> call list \<times> line list \<times> string list \<times> error" where
  "getCertificates_aggregated env domainName limit =
     (case sql_open env of
        Some e \<Rightarrow>
          ([Sql_Open ''postgres'' dsn_aggregated], [], [],
           Some (Wrap ''could not open SQL connection to postgres at crt.sh due to error (%w)'' e))
      | None \<Rightarrow>
          (case
             (case db_prepare env certificateQuery_aggregated of
                Some e \<Rightarrow>
                  ([DB_PrepareContext certificateQuery_aggregated], [Log_Type e],
                   ([], Some (Wrap ''could not prepare SQL query (%w)'' e)), Some e)
              | None \<Rightarrow>
                  (case
                     (case db_query env certificateQuery_aggregated domainName limit of
                        Inl e \<Rightarrow>
                          ([Stmt_QueryContext domainName limit], [],
                           ([], Some (Wrap ''could not execute SQL on postgres for finding certificates (%w)'' e)),
                           Some e)
                      | Inr rs \<Rightarrow>
                          (case
                             (case rows_columns env of
                                Some e \<Rightarrow>
                                  ([Rows_Columns], [],
                                   ([], Some (Wrap ''could not get columns (%w)'' e)), Some e)
                              | None \<Rightarrow>
                                  (case scan_rows rs of
                                     (cs, res) \<Rightarrow> (Rows_Columns # cs, res)))
                           of (cs, ls, ret, err) \<Rightarrow>
                             (Stmt_QueryContext domainName limit # cs @ [Rows_Close], ls, ret,
                              Append err [rows_close env])))
                   of (cs, ls, ret, err) \<Rightarrow>
                     (DB_PrepareContext certificateQuery_aggregated # cs @ [Stmt_Close], ls, ret,
                      Append err [stmt_close env])))
           of (cs, ls, ret, err) \<Rightarrow>
             (case
                (case db_close env of None \<Rightarrow> err | Some err2 \<Rightarrow> Append err [Some err2])
              of err \<Rightarrow>
                (Sql_Open ''postgres'' dsn_aggregated # cs @ [DB_Close], ls, fst ret, snd ret))))"

definition run_aggregated :: "row driver \<Rightarrow> string \<Rightarrow> flags parsed \<Rightarrow> run_result" where
  "run_aggregated env prog cmdline =
     (case cmdline of
        Flag_Exit msg n \<Rightarrow> flag_exit prog msg n
      | Parsed f \<Rightarrow>
          (let lf = (if flag_v f then or LstdFlags Lshortfile else 0) in
           if length (args f) \<noteq> 1 then
             \<lparr>log_flags = lf, calls = [], out = [], exited = None,
              returned = Some (Err ''expected 1 argument: domain name'')\<rparr>
           else
             (case getCertificates_aggregated env (args f ! 0) (flag_n f) of
                (cs, ls, certs, Some e) \<Rightarrow>
                  \<lparr>log_flags = lf, calls = cs, out = ls, exited = None,
                   returned =
                     Some (Wrap (''could not getCertificates of ('' @ args f ! 0 @ '') error (%w)'') e)\<rparr>
              | (cs, ls, certs, None) \<Rightarrow>
                  \<lparr>log_flags = lf, calls = cs, out = ls @ [Log_Certs certs], exited = None,
                   returned = None\<rparr>)))"

definition main_aggregated :: "row driver \<Rightarrow> string \<Rightarrow> flags parsed \<Rightarrow> process" where
  "main_aggregated env prog cmdline = finish (run_aggregated env prog cmdline)"

section \<open>The statements as the server evaluates them\<close>

text \<open>
  Neither program counts, filters or orders rows: what a claim says about the rows
  returned is a property of the SQL text a program sends. The text of the direct variant
  is small enough to evaluate over a table with the three columns it names.
\<close>

record cai =
  certificate_id :: int
  name_value :: string
  certificate :: bytes

text \<open>
  \<open>like_match p s\<close> is SQL's \<^verbatim>\<open>s LIKE p\<close>: \<^verbatim>\<open>%\<close> stands for any run of characters,
  \<^verbatim>\<open>_\<close> for any one character, a backslash takes the next character literally, every
  other character stands for itself, and the pattern must cover the whole string. (A
  pattern that ends in a lone backslash is an error in PostgreSQL; here it matches
  nothing.)
\<close>

fun like_match :: "string \<Rightarrow> string \<Rightarrow> bool" where
  "like_match [] s = (s = [])"
| "like_match (p # ps) s =
     (if p = CHR ''%'' then
        like_match ps s \<or> (case s of [] \<Rightarrow> False | c # cs \<Rightarrow> like_match (p # ps) cs)
      else if p = CHR ''_'' then
        (case s of [] \<Rightarrow> False | c # cs \<Rightarrow> like_match ps cs)
      else if p = CHR 0x5C then
        (case ps of
           [] \<Rightarrow> False
         | q # qs \<Rightarrow> (case s of [] \<Rightarrow> False | c # cs \<Rightarrow> c = q \<and> like_match qs cs))
      else (case s of [] \<Rightarrow> False | c # cs \<Rightarrow> c = p \<and> like_match ps cs))"

text \<open>
  \<^verbatim>\<open>SELECT certificate FROM certificate_and_identities WHERE name_value LIKE $1
  ORDER BY certificate_id DESC LIMIT $2\<close>. Rows with equal identifiers keep the table's order
  (SQL leaves their order open). A negative \<^verbatim>\<open>LIMIT\<close> is an error of the statement.
\<close>

definition select_direct :: "cai list \<Rightarrow> string \<Rightarrow> int \<Rightarrow> cai list" where
  "select_direct tbl p n =
     take (nat n)
       (sort_key (\<lambda>r. - certificate_id r) (filter (\<lambda>r. like_match p (name_value r)) tbl))"

definition answer_direct :: "cai list \<Rightarrow> string \<Rightarrow> string \<Rightarrow> int \<Rightarrow> err + bytes scan list" where
  "answer_direct tbl q p n =
     (if q \<noteq> certificateQuery_direct then Inl (Err ''unknown statement'')
      else if n < 0 then Inl (Err ''LIMIT must not be negative'')
      else Inr (map (\<lambda>r. Scanned (certificate r)) (select_direct tbl p n)))"

text \<open>
  The text of the aggregated variant calls functions of the server's own
  (\<^verbatim>\<open>plainto_tsquery\<close>, \<^verbatim>\<open>identities\<close>, \<^verbatim>\<open>x509_commonName\<close>, ...). Its rows up to and
  including the \<^verbatim>\<open>ORDER BY\<close> clause are a parameter \<open>ordered\<close> (a function of \<^verbatim>\<open>$1\<close>, each
  row with what scanning it into eight strings does); the final \<^verbatim>\<open>LIMIT $2\<close> is evaluated.
\<close>

definition answer_aggregated ::
  "(string \<Rightarrow> row scan list) \<Rightarrow> string \<Rightarrow> string \<Rightarrow> int \<Rightarrow> err + row scan list" where
  "answer_aggregated ordered q p n =
     (if q \<noteq> certificateQuery_aggregated then Inl (Err ''unknown statement'')
      else if n < 0 then Inl (Err ''LIMIT must not be negative'')
      else Inr (take (nat n) (ordered p)))"

section \<open>Reading a run\<close>

text \<open>The certificate and row entries among the lines printed.\<close>

fun is_entry :: "line \<Rightarrow> bool" where
  "is_entry (Log_Cert cn t) = True"
| "is_entry (Log_Row r) = True"
| "is_entry l = False"

fun is_fatal :: "line \<Rightarrow> bool" where
  "is_fatal (Log_Fatal e) = True"
| "is_fatal l = False"

fun is_usage :: "line \<Rightarrow> bool" where
  "is_usage (Usage_Text prog) = True"
| "is_usage l = False"

text \<open>
  The spec's "substring match": \<open>contains_substring s d\<close> holds when \<open>d\<close> occurs
  somewhere in \<open>s\<close>.
\<close>

fun has_prefix :: "string \<Rightarrow> string \<Rightarrow> bool" where
  "has_prefix s [] = True"
| "has_prefix [] (c # d) = False"
| "has_prefix (x # s) (c # d) = (x = c \<and> has_prefix s d)"

fun contains_substring :: "string \<Rightarrow> string \<Rightarrow> bool" where
  "contains_substring [] d = (d = [])"
| "contains_substring (x # s) d = (has_prefix (x # s) d \<or> contains_substring s d)"

text \<open>A domain name that holds none of the characters \<^verbatim>\<open>LIKE\<close> reads specially.\<close>

fun wildcard_free :: "string \<Rightarrow> bool" where
  "wildcard_free [] = True"
| "wildcard_free (c # d) = (c \<noteq> CHR ''%'' \<and> c \<noteq> CHR ''_'' \<and> c \<noteq> CHR 0x5C \<and> wildcard_free d)"

section \<open>The PEM armor\<close>

text \<open>
  Modelled from the spec: \<^verbatim>\<open>pem.Encode\<close> of the imported package \<^verbatim>\<open>encoding/pem\<close> and
  a decoder for what it writes; neither is in the repository, which only calls
  \<^verbatim>\<open>pem.Encode\<close> with the type \<^verbatim>\<open>CERTIFICATE\<close> and the bytes of one row. The spec calls the
  format "a base64-armored textual encoding wrapping DER bytes with delimiter lines", the
  block "delimited by -----BEGIN CERTIFICATE----- / -----END CERTIFICATE-----". Written
  out: the BEGIN line, the base64 text of the bytes (the standard alphabet, \<^verbatim>\<open>=\<close> padding) in
  lines of 64 characters, the END line, every line ended by a newline. The decoder reads
  the label from the first line, takes the lines up to the END line of that label and
  decodes their base64 text.
\<close>

definition alphabet :: string where
  "alphabet = ''ABCDEFGHIJKLMNOPQRSTUVWXYZabcdefghijklmnopqrstuvwxyz0123456789+/''"

definition sextet_char :: "nat \<Rightarrow> char" where
  "sextet_char n = alphabet ! n"

fun index_of :: "'a \<Rightarrow> 'a list \<Rightarrow> nat option" where
  "index_of c [] = None"
| "index_of c (x # xs) = (if c = x then Some 0 else map_option Suc (index_of c xs))"

definition char_sextet :: "char \<Rightarrow> nat option" where
  "char_sextet c = index_of c alphabet"

definition sextets :: "nat \<Rightarrow> nat \<Rightarrow> nat \<Rightarrow> nat \<times> nat \<times> nat \<times> nat" where
  "sextets a b c = (a div 4, a mod 4 * 16 + b div 16, b mod 16 * 4 + c div 64, c mod 64)"

definition octets :: "nat \<Rightarrow> nat \<Rightarrow> nat \<Rightarrow> nat \<Rightarrow> nat \<times> nat \<times> nat" where
  "octets p q r s = (p * 4 + q div 16, q mod 16 * 16 + r div 4, r mod 4 * 64 + s)"

text \<open>
  Modelled from the spec: the base64 text of a byte sequence, three bytes to four
  characters, the last group padded with \<^verbatim>\<open>=\<close>.
\<close>

fun base64 :: "bytes \<Rightarrow> string" where
  "base64 [] = []"
| "base64 [a] =
     (case sextets (unat a) 0 0 of
        (p, q, r, s) \<Rightarrow> [sextet_char p, sextet_char q, CHR ''='', CHR ''=''])"
| "base64 [a, b] =
     (case sextets (unat a) (unat b) 0 of
        (p, q, r, s) \<Rightarrow> [sextet_char p, sextet_char q, sextet_char r, CHR ''=''])"
| "base64 (a # b # c # bs) =
     (case sextets (unat a) (unat b) (unat c) of
        (p, q, r, s) \<Rightarrow>
          sextet_char p # sextet_char q # sextet_char r # sextet_char s # base64 bs)"

text \<open>
  Modelled from the spec: reading base64 text back, four characters to three bytes;
  padding is read in the last group only, and text that is not base64 gives \<open>None\<close>.
\<close>

fun unbase64 :: "string \<Rightarrow> bytes option" where
  "unbase64 [] = Some []"
| "unbase64 (w # x # y # z # rest) =
     (if rest = [] \<and> z = CHR ''='' then
        (if y = CHR ''='' then
           (case (char_sextet w, char_sextet x) of
              (Some p, Some q) \<Rightarrow>
                (case octets p q 0 0 of (a, b, c) \<Rightarrow> Some [of_nat a])
            | _ \<Rightarrow> None)
         else
           (case (char_sextet w, char_sextet x, char_sextet y) of
              (Some p, Some q, Some r) \<Rightarrow>
                (case octets p q r 0 of (a, b, c) \<Rightarrow> Some [of_nat a, of_nat b])
            | _ \<Rightarrow> None))
      else
        (case (char_sextet w, char_sextet x, char_sextet y, char_sextet z) of
           (Some p, Some q, Some r, Some s) \<Rightarrow>
             (case octets p q r s of
                (a, b, c) \<Rightarrow>
                  map_option (\<lambda>bs. of_nat a # of_nat b # of_nat c # bs) (unbase64 rest))
         | _ \<Rightarrow> None))"
| "unbase64 cs = None"

definition newline :: char where
  "newline = CHR 0x0A"

fun lines64 :: "string \<Rightarrow> string list" where
  "lines64 [] = []"
| "lines64 (c # cs) = take 64 (c # cs) # lines64 (drop 64 (c # cs))"

definition unlines :: "string list \<Rightarrow> string" where
  "unlines ls = concat (map (\<lambda>l. l @ [newline]) ls)"

fun split_lines :: "string \<Rightarrow> string list" where
  "split_lines [] = []"
| "split_lines (c # cs) =
     (if c = newline then [] # split_lines cs
      else (case split_lines cs of [] \<Rightarrow> [[c]] | l # ls \<Rightarrow> (c # l) # ls))"

text \<open>
  Modelled from the spec: the text that \<^verbatim>\<open>pem.Encode\<close> writes for a block without
  headers.
\<close>

definition pem_encode :: "string \<Rightarrow> bytes \<Rightarrow> string" where
  "pem_encode label bs =
     unlines ((''-----BEGIN '' @ label @ ''-----'') # lines64 (base64 bs) @
              [''-----END '' @ label @ ''-----''])"

definition label_of :: "string \<Rightarrow> string option" where
  "label_of l =
     (if 16 \<le> length l \<and> take 11 l = ''-----BEGIN '' \<and> drop (length l - 5) l = ''-----''
      then Some (take (length l - 16) (drop 11 l)) else None)"

text \<open>
  Modelled from the spec: decoding the armored text back to the type label and the
  bytes.
\<close>

definition pem_decode :: "string \<Rightarrow> (string \<times> bytes) option" where
  "pem_decode text =
     (case split_lines text of
        [] \<Rightarrow> None
      | first # rest \<Rightarrow>
          (case label_of first of
             None \<Rightarrow> None
           | Some label \<Rightarrow>
               (let body = takeWhile (\<lambda>l. l \<noteq> ''-----END '' @ label @ ''-----'') rest
                in if length body = length rest then None
                   else map_option (Pair label) (unbase64 (concat body)))))"

section \<open>Concrete inputs\<close>

text \<open>
  A server that answers every call without error: \<open>crt_sh tbl\<close> evaluates the direct
  statement over the table \<open>tbl\<close>, \<open>crt_sh_rows ordered\<close> the aggregated one over the rows
  \<open>ordered\<close>.
\<close>

definition crt_sh :: "cai list \<Rightarrow> bytes driver" where
  "crt_sh tbl =
     \<lparr>sql_open = None, db_close = None, db_prepare = (\<lambda>q. None), db_query = answer_direct tbl,
      stmt_close = None, rows_columns = None, rows_close = None, rows_err = None\<rparr>"

definition crt_sh_rows :: "(string \<Rightarrow> row scan list) \<Rightarrow> row driver" where
  "crt_sh_rows ordered =
     \<lparr>sql_open = None, db_close = None, db_prepare = (\<lambda>q. None),
      db_query = answer_aggregated ordered,
      stmt_close = None, rows_columns = None, rows_close = None, rows_err = None\<rparr>"

text \<open>
  A certificate as \<^verbatim>\<open>crypto/x509\<close> parses it: self-signed, ECDSA with P-256 and SHA-256,
  subject \<^verbatim>\<open>CN=example.com\<close>, valid from 2026-11-01 20:37:22 UTC, 390 bytes of DER.
\<close>

definition example_der :: bytes where
  "example_der =
     [0x30, 0x82, 0x01, 0x82, 0x30, 0x82, 0x01, 0x27, 0xa0, 0x03, 0x02, 0x01, 0x02, 0x02,
      0x14, 0x11, 0x5a, 0x9e, 0x87, 0x91, 0xa4, 0x2f, 0xbc, 0xf0, 0x38, 0x06, 0x26, 0x50,
      0x6a, 0x89, 0x40, 0xfb, 0xd5, 0x33, 0x84, 0x30, 0x0a, 0x06, 0x08, 0x2a, 0x86, 0x48,
      0xce, 0x3d, 0x04, 0x03, 0x02, 0x30, 0x16, 0x31, 0x14, 0x30, 0x12, 0x06, 0x03, 0x55,
      0x04, 0x03, 0x0c, 0x0b, 0x65, 0x78, 0x61, 0x6d, 0x70, 0x6c, 0x65, 0x2e, 0x63, 0x6f,
      0x6d, 0x30, 0x1e, 0x17, 0x0d, 0x32, 0x36, 0x31, 0x31, 0x30, 0x31, 0x32, 0x30, 0x33,
      0x37, 0x32, 0x32, 0x5a, 0x17, 0x0d, 0x32, 0x37, 0x30, 0x31, 0x33, 0x30, 0x32, 0x30,
      0x33, 0x37, 0x32, 0x32, 0x5a, 0x30, 0x16, 0x31, 0x14, 0x30, 0x12, 0x06, 0x03, 0x55,
      0x04, 0x03, 0x0c, 0x0b, 0x65, 0x78, 0x61, 0x6d, 0x70, 0x6c, 0x65, 0x2e, 0x63, 0x6f,
      0x6d, 0x30, 0x59, 0x30, 0x13, 0x06, 0x07, 0x2a, 0x86, 0x48, 0xce, 0x3d, 0x02, 0x01,
      0x06, 0x08, 0x2a, 0x86, 0x48, 0xce, 0x3d, 0x03, 0x01, 0x07, 0x03, 0x42, 0x00, 0x04,
      0x52, 0xee, 0x04, 0x35, 0xce, 0x64, 0xb3, 0xf9, 0x13, 0x00, 0xb6, 0x52, 0xbd, 0xbc,
      0x28, 0xbe, 0x6f, 0x12, 0xae, 0x5e, 0x89, 0xfb, 0xd7, 0x3d, 0x09, 0xb1, 0xab, 0xcf,
      0x1f, 0x29, 0xa3, 0x51, 0x43, 0xad, 0xbb, 0x82, 0x84, 0x13, 0x69, 0xf2, 0x36, 0xee,
      0xf2, 0xc7, 0x8f, 0x59, 0x9c, 0x70, 0xff, 0x91, 0xe9, 0x50, 0xa7, 0xf3, 0x09, 0xd2,
      0xcc, 0xe9, 0x04, 0x74, 0x5e, 0x46, 0x22, 0x5c, 0xa3, 0x53, 0x30, 0x51, 0x30, 0x1d,
      0x06, 0x03, 0x55, 0x1d, 0x0e, 0x04, 0x16, 0x04, 0x14, 0xf5, 0xf8, 0xb3, 0x7a, 0x17,
      0x54, 0x5d, 0xb0, 0x06, 0x5a, 0xd7, 0xa1, 0x8b, 0xd3, 0x71, 0xcc, 0x92, 0x21, 0xee,
      0xe2, 0x30, 0x1f, 0x06, 0x03, 0x55, 0x1d, 0x23, 0x04, 0x18, 0x30, 0x16, 0x80, 0x14,
      0xf5, 0xf8, 0xb3, 0x7a, 0x17, 0x54, 0x5d, 0xb0, 0x06, 0x5a, 0xd7, 0xa1, 0x8b, 0xd3,
      0x71, 0xcc, 0x92, 0x21, 0xee, 0xe2, 0x30, 0x0f, 0x06, 0x03, 0x55, 0x1d, 0x13, 0x01,
      0x01, 0xff, 0x04, 0x05, 0x30, 0x03, 0x01, 0x01, 0xff, 0x30, 0x0a, 0x06, 0x08, 0x2a,
      0x86, 0x48, 0xce, 0x3d, 0x04, 0x03, 0x02, 0x03, 0x49, 0x00, 0x30, 0x46, 0x02, 0x21,
      0x00, 0xa1, 0x7f, 0x25, 0x4d, 0x76, 0x0e, 0xaa, 0xb1, 0x76, 0xf5, 0xb2, 0x98, 0x89,
      0xf5, 0x55, 0x6e, 0xff, 0x9a, 0x14, 0xd1, 0x26, 0x5b, 0xe2, 0xb2, 0xa4, 0x52, 0x48,
      0x8a, 0xe4, 0x36, 0x40, 0x27, 0x02, 0x21, 0x00, 0xb3, 0x6c, 0x5c, 0xac, 0xed, 0xe1,
      0xdf, 0x29, 0x00, 0xd6, 0x33, 0x4d, 0x08, 0xe4, 0xce, 0xcd, 0x40, 0xfb, 0x4a, 0x83,
      0x06, 0x4b, 0x6f, 0x78, 0xdc, 0xbe, 0xc7, 0xfa, 0xdc, 0x96, 0x86, 0x5a]"

text \<open>
  What \<^verbatim>\<open>x509.ParseCertificate\<close> and \<^verbatim>\<open>pem.Encode\<close> answer on the byte strings of the tables
  below: \<open>example_der\<close> is parsed, the other byte strings (\<^verbatim>\<open>30 01\<close>, \<^verbatim>\<open>30 02\<close>, \<^verbatim>\<open>30 04\<close> and
  the empty one) are not certificates, and writing a PEM block does not fail. Those are
  the only byte strings at which this codec is used.
\<close>

definition x509 :: codec where
  "x509 =
     \<lparr>ParseCertificate =
        (\<lambda>der. if der = example_der
               then Inr \<lparr>CommonName = ''example.com'', NotBefore = 1793565442\<rparr>
               else Inl (Err ''x509: malformed certificate'')),
      pem_Encode = (\<lambda>t b. None)\<rparr>"

text \<open>
  Four table rows: three are named \<^verbatim>\<open>example.com\<close>, one \<^verbatim>\<open>www.example.com\<close>; the
  certificate of row 3 is not well formed.
\<close>

definition table4 :: "cai list" where
  "table4 =
     [\<lparr>certificate_id = 1, name_value = ''example.com'', certificate = [0x30, 0x01]\<rparr>,
      \<lparr>certificate_id = 2, name_value = ''www.example.com'', certificate = [0x30, 0x02]\<rparr>,
      \<lparr>certificate_id = 4, name_value = ''example.com'', certificate = [0x30, 0x04]\<rparr>,
      \<lparr>certificate_id = 3, name_value = ''example.com'', certificate = []\<rparr>]"

definition row_a :: row where
  "row_a =
     \<lparr>one = ''183267'', two = ''C=US, O=Let's Encrypt, CN=R3'', three = ''example.com'',
      four = ''7'', five = ''2023-01-02 00:00:00'', six = ''2023-01-01 00:00:00'',
      seven = ''2023-04-01 00:00:00'', eight = ''03a1''\<rparr>"

definition row_b :: row where
  "row_b =
     \<lparr>one = ''183267'', two = ''C=US, O=Let's Encrypt, CN=R3'', three = ''www.example.com'',
      four = ''5'', five = ''2022-01-02 00:00:00'', six = ''2022-01-01 00:00:00'',
      seven = ''2022-04-01 00:00:00'', eight = ''02b2''\<rparr>"

definition two_rows :: "string \<Rightarrow> row scan list" where
  "two_rows d = [Scanned row_a, Scanned row_b]"

text \<open>A second row whose \<^verbatim>\<open>ENTRY_TIMESTAMP\<close> is NULL cannot be scanned into a string.\<close>

definition null_second :: "string \<Rightarrow> row scan list" where
  "null_second d =
     [Scanned row_a,
      Scan_Failed (Err ''sql: Scan error on column index 4: converting NULL to string is unsupported'')]"

definition no_rows :: "string \<Rightarrow> row scan list" where
  "no_rows d = []"

text \<open>
  Two table rows named \<^verbatim>\<open>example.com\<close>: the newer holds the certificate above, the older
  bytes that are not a certificate.
\<close>

definition table2 :: "cai list" where
  "table2 =
     [\<lparr>certificate_id = 5, name_value = ''example.com'', certificate = [0x30, 0x01]\<rparr>,
      \<lparr>certificate_id = 6, name_value = ''example.com'', certificate = example_der\<rparr>]"

text \<open>
  A cursor cut short: of the rows the server has for the statement the first \<open>k\<close> are
  delivered, then \<^verbatim>\<open>rows.Next()\<close> returns false. \<open>cancelled_direct\<close> and
  \<open>cancelled_aggregated\<close> are servers with two rows for \<^verbatim>\<open>example.com\<close> where the context
  is cancelled after the first row: the cursor stops there, \<^verbatim>\<open>rows.Err()\<close> would return the
  context's error, and the \<^verbatim>\<open>Close\<close> calls on the already closed cursor succeed.
\<close>

definition cut_short ::
  "nat \<Rightarrow> (string \<Rightarrow> string \<Rightarrow> int \<Rightarrow> err + 'r scan list) \<Rightarrow>
   string \<Rightarrow> string \<Rightarrow> int \<Rightarrow> err + 'r scan list" where
  "cut_short k answer q p n =
     (case answer q p n of Inl e \<Rightarrow> Inl e | Inr rs \<Rightarrow> Inr (take k rs))"

definition cancelled_direct :: "bytes driver" where
  "cancelled_direct =
     (crt_sh table2)\<lparr>db_query := cut_short 1 (answer_direct table2),
                      rows_err := Some (Err ''context canceled'')\<rparr>"

definition cancelled_aggregated :: "row driver" where
  "cancelled_aggregated =
     (crt_sh_rows two_rows)\<lparr>db_query := cut_short 1 (answer_aggregated two_rows),
                            rows_err := Some (Err ''context canceled'')\<rparr>"

text \<open>The aggregated server with an empty result whose \<^verbatim>\<open>db.Close()\<close> fails.\<close>

definition close_fails :: "row driver" where
  "close_fails = (crt_sh_rows no_rows)\<lparr>db_close := Some (Err ''close failed'')\<rparr>"

section \<open>Facts about the loops and the statements\<close>

subsection \<open>The aggregate error\<close>

lemma mentions_refl: "mentions e e"
  by (cases e) simp_all

lemma mentions_member: "x \<in> set es \<Longrightarrow> mentions (Multi es) x"
  using mentions_refl [of x] by auto

lemma Append_Some:
  "(case err of None \<Rightarrow> [] | Some p \<Rightarrow> errors_of p) @ non_nil errs \<noteq> [] \<Longrightarrow>
   Append err errs = Some (Multi ((case err of None \<Rightarrow> [] | Some p \<Rightarrow> errors_of p) @ non_nil errs))"
  by (simp add: Append_def Let_def)

lemma non_nil_member: "Some c \<in> set errs \<Longrightarrow> c \<in> set (non_nil errs)"
  by (induction errs) (auto split: option.splits)

lemma Append_keeps_first:
  assumes "x \<in> set (errors_of p)"
  shows "\<exists>e. Append (Some p) errs = Some e \<and> mentions e x"
proof -
  from assms have "errors_of p @ non_nil errs \<noteq> []" by auto
  then have "Append (Some p) errs = Some (Multi (errors_of p @ non_nil errs))"
    using Append_Some [of "Some p" errs] by simp
  moreover have "mentions (Multi (errors_of p @ non_nil errs)) x"
    using assms by (intro mentions_member) simp
  ultimately show ?thesis by blast
qed

lemma Append_keeps_rest:
  assumes "Some c \<in> set errs"
  shows "\<exists>e. Append err errs = Some e \<and> mentions e c"
proof -
  let ?es = "(case err of None \<Rightarrow> [] | Some p \<Rightarrow> errors_of p) @ non_nil errs"
  from assms have c: "c \<in> set ?es" by (simp add: non_nil_member)
  then have "?es \<noteq> []" by auto
  then have "Append err errs = Some (Multi ?es)" by (rule Append_Some)
  moreover from c have "mentions (Multi ?es) c" by (rule mentions_member)
  ultimately show ?thesis by blast
qed

subsection \<open>The scan loops and \<^verbatim>\<open>getCertificates\<close>\<close>

lemma scan_ders_length:
  "scan_ders rs ders = (cs, certs, e) \<Longrightarrow> length certs \<le> length ders + length rs"
proof (induction rs ders arbitrary: cs rule: scan_ders.induct)
  case (2 der rs ders)
  then show ?case by (auto split: prod.splits)
qed simp_all

lemma scan_ders_all_scanned:
  "scan_ders (map (\<lambda>x. Scanned (f x)) xs) ders =
     (concat (map (\<lambda>x. [Rows_Next, Rows_Scan]) xs) @ [Rows_Next], ders @ map f xs, None)"
  by (induction xs arbitrary: ders) simp_all

lemma scan_ders_success:
  "scan_ders rs ders = (cs, certs, None) \<Longrightarrow> map Scanned certs = map Scanned ders @ rs"
proof (induction rs ders arbitrary: cs rule: scan_ders.induct)
  case (2 der rs ders)
  then show ?case by (auto split: prod.splits)
qed simp_all

lemma scan_ders_error:
  "scan_ders rs ders = (cs, certs, Some p) \<Longrightarrow> \<exists>e. p = Wrap ''could not scan row (%w)'' e"
proof (induction rs ders arbitrary: cs rule: scan_ders.induct)
  case (2 der rs ders)
  then show ?case by (auto split: prod.splits)
qed auto

lemma scan_rows_entries:
  "length (filter is_entry (fst (snd (scan_rows rs)))) \<le> length rs"
proof (induction rs rule: scan_rows.induct)
  case (2 r rs)
  then show ?case by (auto split: prod.splits)
qed simp_all

lemma scan_rows_ret: "fst (fst (snd (snd (scan_rows rs)))) = []"
proof (induction rs rule: scan_rows.induct)
  case (2 r rs)
  then show ?case by (auto split: prod.splits)
qed simp_all

lemma scan_rows_success:
  "scan_rows rs = (cs, ls, (certs, None), e) \<Longrightarrow>
   \<exists>rows. rs = map Scanned rows \<and> ls = map Log_Row rows"
proof (induction rs arbitrary: cs ls rule: scan_rows.induct)
  case 1
  then show ?case by simp
next
  case (2 r rs)
  then obtain cs' ls' where "scan_rows rs = (cs', ls', (certs, None), e)" and "ls = Log_Row r # ls'"
    by (auto split: prod.splits)
  with "2.IH" obtain rows where "rs = map Scanned rows" and "ls' = map Log_Row rows" by blast
  with \<open>ls = Log_Row r # ls'\<close> have "Scanned r # rs = map Scanned (r # rows) \<and> ls = map Log_Row (r # rows)"
    by simp
  then show ?case by (intro exI [of _ "r # rows"])
next
  case (3 e rs)
  then show ?case by simp
qed

lemma scan_rows_no_fatal: "filter is_fatal (fst (snd (scan_rows rs))) = []"
proof (induction rs rule: scan_rows.induct)
  case (2 r rs)
  then show ?case by (auto split: prod.splits)
qed simp_all

lemma getCertificates_direct_success:
  assumes "sql_open env = None"
    and "db_query env certificateQuery_direct d n = Inr rs"
    and "getCertificates_direct env d n = (cs, certs, None)"
  shows "map Scanned certs = rs"
proof (cases "scan_ders rs []")
  case (fields cs' certs' e)
  with assms have "certs' = certs" and "e = None"
    using scan_ders_error [of rs "[]" cs' certs']
    by (auto simp add: getCertificates_direct_def Append_def Let_def
        split: option.splits if_splits)
  with fields show ?thesis using scan_ders_success [of rs "[]" cs' certs] by simp
qed

lemma getCertificates_direct_not_nil_calls:
  "sql_open env = None \<Longrightarrow>
   DB_QueryContext certificateQuery_direct d n \<in> set (fst (getCertificates_direct env d n))"
  by (auto simp add: getCertificates_direct_def split: sum.splits prod.splits)

lemma getCertificates_aggregated_entries:
  "length (filter is_entry (fst (snd (getCertificates_aggregated env d n)))) \<le>
     (case db_query env certificateQuery_aggregated d n of Inl e \<Rightarrow> 0 | Inr rs \<Rightarrow> length rs)"
  using scan_rows_entries [of "case db_query env certificateQuery_aggregated d n of Inr rs \<Rightarrow> rs"]
  by (auto simp add: getCertificates_aggregated_def split: option.splits sum.splits prod.splits)

lemma getCertificates_aggregated_nil:
  "fst (snd (snd (getCertificates_aggregated env d n))) = []"
  using scan_rows_ret [of "case db_query env certificateQuery_aggregated d n of Inr rs \<Rightarrow> rs"]
  by (auto simp add: getCertificates_aggregated_def split: option.splits sum.splits prod.splits)

lemma getCertificates_aggregated_success:
  assumes "sql_open env = None"
    and "db_query env certificateQuery_aggregated d n = Inr rs"
    and "getCertificates_aggregated env d n = (cs, ls, certs, None)"
  shows "\<exists>rows. rs = map Scanned rows \<and> ls = map Log_Row rows"
proof (cases "scan_rows rs")
  case (fields cs' ls' ret e)
  with assms have "ls' = ls" and "snd ret = None"
    by (auto simp add: getCertificates_aggregated_def split: option.splits)
  with fields show ?thesis using scan_rows_success [of rs cs' ls "fst ret" e]
    by (cases ret) simp
qed

lemma getCertificates_aggregated_no_fatal:
  "filter is_fatal (fst (snd (getCertificates_aggregated env d n))) = []"
  using scan_rows_no_fatal [of "case db_query env certificateQuery_aggregated d n of Inr rs \<Rightarrow> rs"]
  by (auto simp add: getCertificates_aggregated_def split: option.splits sum.splits prod.splits)

lemma getCertificates_aggregated_query_call:
  "sql_open env = None \<Longrightarrow> db_prepare env certificateQuery_aggregated = None \<Longrightarrow>
   Stmt_QueryContext d n \<in> set (fst (getCertificates_aggregated env d n))"
  by (auto simp add: getCertificates_aggregated_def split: sum.splits prod.splits option.splits)

text \<open>
  In the direct variant every cleanup error reaches the caller, next to the error of the
  body: with a failed scan and both \<^verbatim>\<open>Close\<close> calls failing, the error returned holds
  all three.
\<close>

lemma getCertificates_direct_db_close_kept:
  assumes "sql_open env = None" and "db_close env = Some c"
  shows "\<exists>e. snd (snd (getCertificates_direct env d n)) = Some e \<and> mentions e c"
  using assms Append_keeps_rest [of c "[Some c]"]
  by (auto simp add: getCertificates_direct_def split: sum.splits prod.splits)

lemma getCertificates_direct_aggregates:
  assumes "sql_open env = None"
    and "db_query env certificateQuery_direct d n = Inr rs"
    and "scan_ders rs [] = (cs, certs, Some p)"
    and "rows_close env = Some c1" and "db_close env = Some c2"
  shows "snd (snd (getCertificates_direct env d n)) = Some (Multi (errors_of p @ [c1, c2]))"
  using assms by (simp add: getCertificates_direct_def Append_def Let_def)

text \<open>
  In the aggregated variant what the three \<^verbatim>\<open>Close\<close> calls answer never changes what
  \<^verbatim>\<open>getCertificates\<close> does or returns.
\<close>

lemma getCertificates_aggregated_ignores_cleanup:
  "getCertificates_aggregated (env\<lparr>db_close := c1, stmt_close := c2, rows_close := c3\<rparr>) d n =
     getCertificates_aggregated env d n"
  by (simp add: getCertificates_aggregated_def split: option.splits sum.splits prod.splits)

subsection \<open>The statement of the direct variant\<close>

lemma length_select_direct: "length (select_direct tbl p n) \<le> nat n"
  by (simp add: select_direct_def)

lemma like_match_wildcard_free: "wildcard_free d \<Longrightarrow> like_match d s = (s = d)"
proof (induction d arbitrary: s)
  case Nil
  then show ?case by simp
next
  case (Cons c d)
  then show ?case by (cases s) auto
qed

lemma select_direct_descending:
  "sorted_wrt (\<ge>) (map certificate_id (select_direct tbl p n))"
proof -
  let ?xs = "sort_key (\<lambda>r. - certificate_id r) (filter (\<lambda>r. like_match p (name_value r)) tbl)"
  have "sorted (map (\<lambda>r. - certificate_id r) ?xs)" by (rule sorted_sort_key)
  then have "sorted_wrt (\<lambda>a b. certificate_id a \<ge> certificate_id b) ?xs"
    by (simp add: sorted_wrt_map)
  then have "sorted_wrt (\<lambda>a b. certificate_id a \<ge> certificate_id b) (take (nat n) ?xs)"
    by (rule sorted_wrt_take)
  then show ?thesis by (simp add: select_direct_def sorted_wrt_map)
qed

lemma getCertificates_direct_answer:
  "0 \<le> n \<Longrightarrow> sql_open env = None \<Longrightarrow>
   fst (snd (getCertificates_direct (env\<lparr>db_query := answer_direct tbl\<rparr>) d n)) =
     map certificate (select_direct tbl d n)"
  by (simp add: getCertificates_direct_def answer_direct_def scan_ders_all_scanned)

lemma getCertificates_direct_count:
  "1 \<le> L \<Longrightarrow>
   length (fst (snd (getCertificates_direct (env\<lparr>db_query := answer_direct tbl\<rparr>) d L))) \<le> nat L"
proof (cases "sql_open env")
  case None
  assume "1 \<le> L"
  then show ?thesis using getCertificates_direct_answer [of L env tbl d] None
    by (simp add: length_select_direct)
next
  case (Some e)
  then show ?thesis by (simp add: getCertificates_direct_def)
qed

subsection \<open>\<^verbatim>\<open>run\<close> and \<^verbatim>\<open>main\<close>\<close>

lemma print_ders_entries:
  "length (filter is_entry (fst (print_ders cx pem ders))) \<le> length ders"
  by (induction ders) (auto split: sum.splits option.splits prod.splits)

lemma print_ders_success:
  "print_ders cx pem ders = (ls, None) \<Longrightarrow>
   list_all2 (\<lambda>der l. \<exists>c. ParseCertificate cx der = Inr c \<and> l = Log_Cert (CommonName c) (NotBefore c))
     ders (filter is_entry ls)"
proof (induction ders arbitrary: ls)
  case Nil
  then show ?case by simp
next
  case (Cons der ders)
  then show ?case
    by (auto split: sum.splits option.splits prod.splits if_splits)
qed

lemma print_ders_no_fatal: "filter is_fatal (fst (print_ders cx pem ders)) = []"
  by (induction ders) (auto split: sum.splits option.splits prod.splits)

lemma snd_print_ders_not_Err: "snd (print_ders cx pem ders) \<noteq> Some (Err s)"
  by (induction ders) (auto split: sum.splits option.splits prod.splits)

lemma print_ders_not_Err: "print_ders cx pem ders \<noteq> (ls, Some (Err s))"
  using snd_print_ders_not_Err [of cx pem ders s] by auto

lemma out_finish_entries: "filter is_entry (out (finish r)) = filter is_entry (out r)"
  by (simp add: finish_def with_status_def split: option.splits)

lemma finish_returned:
  assumes "exited r = None" and "filter is_fatal (out r) = []"
  shows "status (finish r) = (case returned r of None \<Rightarrow> 0 | Some e \<Rightarrow> 1)"
    and "returned (finish r) = returned r"
    and "filter is_fatal (out (finish r)) = (case returned r of None \<Rightarrow> [] | Some e \<Rightarrow> [Log_Fatal e])"
  using assms by (simp_all add: finish_def with_status_def split: option.splits)

lemma run_direct_entries:
  "length (filter is_entry (out (run_direct env cx prog (Parsed f)))) \<le>
     length (fst (snd (getCertificates_direct env (args f ! 0) (flag_n f))))"
proof (cases "getCertificates_direct env (args f ! 0) (flag_n f)")
  case (fields cs ders e)
  then show ?thesis
    using print_ders_entries [of cx "flag_pem f" ders]
    by (cases e) (auto simp add: run_direct_def Let_def split: prod.splits)
qed

lemma run_direct_no_fatal: "filter is_fatal (out (run_direct env cx prog (Parsed f))) = []"
  using print_ders_no_fatal [of cx "flag_pem f"]
  by (auto simp add: run_direct_def Let_def split: prod.splits option.splits) (metis fst_conv)

lemma run_direct_not_exited: "exited (run_direct env cx prog (Parsed f)) = None"
  by (auto simp add: run_direct_def Let_def split: prod.splits option.splits)

lemma run_direct_success:
  assumes "args f = [d]" and "sql_open env = None"
    and "db_query env certificateQuery_direct d (flag_n f) = Inr rs"
    and "returned (run_direct env cx prog (Parsed f)) = None"
  shows "list_all2 (\<lambda>s l. \<exists>der c. s = Scanned der \<and> ParseCertificate cx der = Inr c
            \<and> l = Log_Cert (CommonName c) (NotBefore c))
          rs (filter is_entry (out (run_direct env cx prog (Parsed f))))"
proof -
  obtain cs ders e where g: "getCertificates_direct env d (flag_n f) = (cs, ders, e)"
    by (cases "getCertificates_direct env d (flag_n f)")
  obtain ls r where p: "print_ders cx (flag_pem f) ders = (ls, r)"
    by (cases "print_ders cx (flag_pem f) ders")
  from assms(1,4) g p have "e = None" and "r = None"
    and o: "out (run_direct env cx prog (Parsed f)) = ls"
    by (auto simp add: run_direct_def Let_def split: option.splits)
  with g have "map Scanned ders = rs"
    using getCertificates_direct_success [OF assms(2,3)] by simp
  moreover from p \<open>r = None\<close>
  have "list_all2 (\<lambda>der l. \<exists>c. ParseCertificate cx der = Inr c \<and> l = Log_Cert (CommonName c) (NotBefore c))
      ders (filter is_entry ls)"
    using print_ders_success by simp
  ultimately show ?thesis
    unfolding o by (auto simp add: list_all2_map1)
qed

lemma run_aggregated_entries:
  "filter is_entry (out (run_aggregated env prog (Parsed f))) =
     (if length (args f) \<noteq> 1 then []
      else filter is_entry (fst (snd (getCertificates_aggregated env (args f ! 0) (flag_n f)))))"
  by (simp add: run_aggregated_def Let_def split: prod.splits option.splits)

lemma run_aggregated_no_fatal: "filter is_fatal (out (run_aggregated env prog (Parsed f))) = []"
  using getCertificates_aggregated_no_fatal [of env "args f ! 0" "flag_n f"]
  by (auto simp add: run_aggregated_def Let_def split: prod.splits option.splits)

lemma run_aggregated_not_exited: "exited (run_aggregated env prog (Parsed f)) = None"
  by (auto simp add: run_aggregated_def Let_def split: prod.splits option.splits)

lemma run_aggregated_success:
  assumes "args g = [d]" and "sql_open env = None"
    and "db_query env certificateQuery_aggregated d (flag_n g) = Inr rs"
    and "returned (run_aggregated env prog (Parsed g)) = None"
  shows "list_all2 (\<lambda>s l. \<exists>r. s = Scanned r \<and> l = Log_Row r)
          rs (filter is_entry (out (run_aggregated env prog (Parsed g))))"
proof -
  obtain cs ls certs e where c: "getCertificates_aggregated env d (flag_n g) = (cs, ls, certs, e)"
    by (cases "getCertificates_aggregated env d (flag_n g)")
  from assms(1,4) c have "e = None"
    and o: "out (run_aggregated env prog (Parsed g)) = ls @ [Log_Certs certs]"
    by (auto simp add: run_aggregated_def Let_def split: option.splits)
  with c obtain rows where "rs = map Scanned rows" and "ls = map Log_Row rows"
    using getCertificates_aggregated_success [OF assms(2,3)] by blast
  then show ?thesis
    unfolding o by (simp add: list_all2_map1 list_all2_map2 list_all2_refl filter_map comp_def)
qed

text \<open>
  Whatever a run has printed of entries, they are the entries of the first rows of the
  cursor, in order.
\<close>

lemma print_ders_prefix:
  "list_all2 (\<lambda>der l. \<exists>c. ParseCertificate cx der = Inr c \<and> l = Log_Cert (CommonName c) (NotBefore c))
     (take (length (filter is_entry (fst (print_ders cx pem ders)))) ders)
     (filter is_entry (fst (print_ders cx pem ders)))"
  by (induction ders) (auto split: sum.splits option.splits prod.splits)

lemma scan_rows_prefix:
  "list_all2 (\<lambda>s l. \<exists>r. s = Scanned r \<and> l = Log_Row r)
     (take (length (filter is_entry (fst (snd (scan_rows rs))))) rs)
     (filter is_entry (fst (snd (scan_rows rs))))"
proof (induction rs rule: scan_rows.induct)
  case (2 r rs)
  then show ?case by (auto split: prod.splits)
qed simp_all

lemma run_direct_prefix:
  assumes "args f = [d]" and "sql_open env = None"
    and "db_query env certificateQuery_direct d (flag_n f) = Inr rs"
  shows "list_all2 (\<lambda>s l. \<exists>der c. s = Scanned der \<and> ParseCertificate cx der = Inr c
            \<and> l = Log_Cert (CommonName c) (NotBefore c))
          (take (length (filter is_entry (out (run_direct env cx prog (Parsed f))))) rs)
          (filter is_entry (out (run_direct env cx prog (Parsed f))))"
proof -
  obtain cs ders e where g: "getCertificates_direct env d (flag_n f) = (cs, ders, e)"
    by (cases "getCertificates_direct env d (flag_n f)")
  show ?thesis
  proof (cases e)
    case (Some x)
    with assms(1) g have "out (run_direct env cx prog (Parsed f)) = []"
      by (simp add: run_direct_def Let_def)
    then show ?thesis by simp
  next
    case None
    with g have rs: "rs = map Scanned ders"
      using getCertificates_direct_success [OF assms(2,3)] by simp
    from None assms(1) g
    have o: "out (run_direct env cx prog (Parsed f)) = fst (print_ders cx (flag_pem f) ders)"
      by (simp add: run_direct_def Let_def split: prod.splits)
    show ?thesis
      unfolding o rs using print_ders_prefix [of cx "flag_pem f" ders]
      by (simp add: take_map list_all2_map1)
  qed
qed

lemma run_aggregated_prefix:
  assumes "args g = [d]" and "sql_open env = None"
    and "db_query env certificateQuery_aggregated d (flag_n g) = Inr rs"
  shows "list_all2 (\<lambda>s l. \<exists>r. s = Scanned r \<and> l = Log_Row r)
          (take (length (filter is_entry (out (run_aggregated env prog (Parsed g))))) rs)
          (filter is_entry (out (run_aggregated env prog (Parsed g))))"
proof -
  have e: "filter is_entry (out (run_aggregated env prog (Parsed g))) =
      filter is_entry (fst (snd (getCertificates_aggregated env d (flag_n g))))"
    using assms(1) by (simp add: run_aggregated_entries)
  have "filter is_entry (fst (snd (getCertificates_aggregated env d (flag_n g)))) = []
      \<or> filter is_entry (fst (snd (getCertificates_aggregated env d (flag_n g)))) =
          filter is_entry (fst (snd (scan_rows rs)))"
    using assms(2,3)
    by (auto simp add: getCertificates_aggregated_def split: option.splits prod.splits)
  then show ?thesis
    unfolding e using scan_rows_prefix [of rs] by auto
qed

text \<open>
  An error that \<^verbatim>\<open>sql.Open\<close> or the query call returns, a cancelled context included, ends
  the process with status 1 and is held in the one line logged.
\<close>

lemma query_error_reported_direct:
  assumes "args f = [d]" and "sql_open env = None"
    and "db_query env certificateQuery_direct d (flag_n f) = Inl c"
  shows "status (main_direct env cx prog (Parsed f)) = 1
       \<and> (\<exists>e. returned (main_direct env cx prog (Parsed f)) = Some e
            \<and> out (main_direct env cx prog (Parsed f)) = [Log_Fatal e] \<and> mentions e c)"
  using assms
  by (cases "db_close env")
    (simp_all add: main_direct_def run_direct_def finish_def getCertificates_direct_def
      Append_def with_status_def mentions_refl)

lemma query_error_reported_aggregated:
  assumes "args g = [d]" and "sql_open env = None"
    and "db_prepare env certificateQuery_aggregated = None"
    and "db_query env certificateQuery_aggregated d (flag_n g) = Inl c"
  shows "status (main_aggregated env prog (Parsed g)) = 1
       \<and> (\<exists>e. returned (main_aggregated env prog (Parsed g)) = Some e
            \<and> out (main_aggregated env prog (Parsed g)) = [Log_Fatal e] \<and> mentions e c)"
  using assms
  by (simp add: main_aggregated_def run_aggregated_def finish_def getCertificates_aggregated_def
      with_status_def mentions_refl)

lemma open_error_reported:
  assumes "args f = [d]" and "sql_open env = Some c"
    and "args g = [d']" and "sql_open env' = Some c'"
  shows "status (main_direct env cx prog (Parsed f)) = 1
       \<and> (\<exists>e. out (main_direct env cx prog (Parsed f)) = [Log_Fatal e] \<and> mentions e c)
       \<and> status (main_aggregated env' prog (Parsed g)) = 1
       \<and> (\<exists>e. out (main_aggregated env' prog (Parsed g)) = [Log_Fatal e] \<and> mentions e c')"
  using assms
  by (simp add: main_direct_def main_aggregated_def run_direct_def run_aggregated_def finish_def
      getCertificates_direct_def getCertificates_aggregated_def with_status_def mentions_refl)

text \<open>
  The usage text is what a process prints that leaves inside \<^verbatim>\<open>flag.Parse()\<close>.
\<close>

lemma main_flag_exit:
  "main_direct env cx prog (Flag_Exit msg n) =
     \<lparr>log_flags = 0, calls = [],
      out = (case msg of None \<Rightarrow> [] | Some m \<Rightarrow> [Flag_Error m]) @ [Usage_Text prog],
      exited = Some n, returned = None, status = n\<rparr>"
  "main_aggregated env' prog (Flag_Exit msg n) =
     \<lparr>log_flags = 0, calls = [],
      out = (case msg of None \<Rightarrow> [] | Some m \<Rightarrow> [Flag_Error m]) @ [Usage_Text prog],
      exited = Some n, returned = None, status = n\<rparr>"
  by (simp_all add: main_direct_def main_aggregated_def run_direct_def run_aggregated_def
      flag_exit_def finish_def with_status_def)

text \<open>A PEM block is written with the type \<^verbatim>\<open>CERTIFICATE\<close> and the bytes of a row.\<close>

lemma print_ders_pem_blocks:
  "Pem_Block t b \<in> set (fst (print_ders cx pem ders)) \<Longrightarrow> t = ''CERTIFICATE'' \<and> b \<in> set ders"
  by (induction ders) (auto split: sum.splits option.splits prod.splits if_splits)

subsection \<open>The PEM armor\<close>

lemma distinct_alphabet: "distinct alphabet"
  by (simp add: alphabet_def)

lemma length_alphabet: "length alphabet = 64"
  by (simp add: alphabet_def)

lemma index_of_nth: "distinct xs \<Longrightarrow> n < length xs \<Longrightarrow> index_of (xs ! n) xs = Some n"
proof (induction xs arbitrary: n)
  case Nil
  then show ?case by simp
next
  case (Cons x xs)
  then show ?case by (cases n) auto
qed

lemma char_sextet_char: "n < 64 \<Longrightarrow> char_sextet (sextet_char n) = Some n"
  by (simp add: char_sextet_def sextet_char_def index_of_nth distinct_alphabet length_alphabet)

lemma sextet_char_in: "n < 64 \<Longrightarrow> sextet_char n \<in> set alphabet"
  by (simp add: sextet_char_def length_alphabet)

lemma sextet_char_not_pad: "n < 64 \<Longrightarrow> sextet_char n \<noteq> CHR ''=''"
proof
  assume "n < 64" and "sextet_char n = CHR ''=''"
  then have "CHR ''='' \<in> set alphabet" using sextet_char_in [of n] by simp
  then show False by (simp add: alphabet_def)
qed

lemma unat_byte: "unat (a :: byte) < 256"
  using unsigned_less [of a, where 'a = nat] by simp

lemma digits:
  fixes x y n :: nat
  assumes "y < n"
  shows "(x * n + y) div n = x" and "(x * n + y) mod n = y"
  using assms by simp_all

lemma sextets_octets:
  assumes "a < 256" and "b < 256" and "c < 256" and "sextets a b c = (p, q, r, s)"
  shows "p < 64" and "q < 64" and "r < 64" and "s < 64"
    and "octets p q r s = (a, b, c)"
    and "fst (octets p q r 0) = a" and "fst (snd (octets p q r 0)) = b"
    and "fst (octets p q 0 0) = a"
proof -
  from assms(4) have p: "p = a div 4" and q: "q = a mod 4 * 16 + b div 16"
    and r: "r = b mod 16 * 4 + c div 64" and s: "s = c mod 64"
    by (simp_all add: sextets_def)
  have hb: "b div 16 < 16" and hc: "c div 64 < 4" using assms(2,3) by simp_all
  have la: "a mod 4 < 4" and lb: "b mod 16 < 16" by simp_all
  show "p < 64" using assms(1) unfolding p by simp
  show "q < 64" using hb la unfolding q by linarith
  show "r < 64" using hc lb unfolding r by linarith
  show "s < 64" unfolding s by simp
  have a: "p * 4 + q div 16 = a"
    unfolding p q using digits(1) [OF hb, of "a mod 4"] by simp
  have b: "q mod 16 * 16 + r div 4 = b"
    unfolding q r using digits(2) [OF hb, of "a mod 4"] digits(1) [OF hc, of "b mod 16"] by simp
  have c: "r mod 4 * 64 + s = c"
    unfolding r s using digits(2) [OF hc, of "b mod 16"] by simp
  show "octets p q r s = (a, b, c)" using a b c by (simp add: octets_def)
  show "fst (octets p q r 0) = a" using a by (simp add: octets_def)
  show "fst (snd (octets p q r 0)) = b" using b by (simp add: octets_def)
  show "fst (octets p q 0 0) = a" using a by (simp add: octets_def)
qed

lemma unbase64_base64: "unbase64 (base64 bs) = Some bs"
proof (induction bs rule: base64.induct)
  case 1
  then show ?case by simp
next
  case (2 a)
  obtain p q r s where e: "sextets (unat a) 0 0 = (p, q, r, s)"
    by (cases "sextets (unat a) 0 0")
  note g = sextets_octets [OF unat_byte [of a] _ _ e]
  obtain b' c' where o: "octets p q 0 0 = (unat a, b', c')"
    using g(8) by (cases "octets p q 0 0") auto
  show ?case
    using g(1,2) by (simp add: e o char_sextet_char sextet_char_not_pad)
next
  case (3 a b)
  obtain p q r s where e: "sextets (unat a) (unat b) 0 = (p, q, r, s)"
    by (cases "sextets (unat a) (unat b) 0")
  note g = sextets_octets [OF unat_byte [of a] unat_byte [of b] _ e]
  obtain c' where o: "octets p q r 0 = (unat a, unat b, c')"
    using g(6,7) by (cases "octets p q r 0") auto
  show ?case
    using g(1,2,3) by (simp add: e o char_sextet_char sextet_char_not_pad)
next
  case (4 a b c bs)
  obtain p q r s where e: "sextets (unat a) (unat b) (unat c) = (p, q, r, s)"
    by (cases "sextets (unat a) (unat b) (unat c)")
  note g = sextets_octets [OF unat_byte [of a] unat_byte [of b] unat_byte [of c] e]
  show ?case
    using g(1-4) "4.IH" by (simp add: e g(5) char_sextet_char sextet_char_not_pad)
qed

lemma set_base64: "set (base64 bs) \<subseteq> insert (CHR ''='') (set alphabet)"
proof (induction bs rule: base64.induct)
  case 1
  then show ?case by simp
next
  case (2 a)
  obtain p q r s where e: "sextets (unat a) 0 0 = (p, q, r, s)"
    by (cases "sextets (unat a) 0 0")
  note g = sextets_octets [OF unat_byte [of a] _ _ e]
  show ?case using g(1,2) by (simp add: e sextet_char_in)
next
  case (3 a b)
  obtain p q r s where e: "sextets (unat a) (unat b) 0 = (p, q, r, s)"
    by (cases "sextets (unat a) (unat b) 0")
  note g = sextets_octets [OF unat_byte [of a] unat_byte [of b] _ e]
  show ?case using g(1,2,3) by (simp add: e sextet_char_in)
next
  case (4 a b c bs)
  obtain p q r s where e: "sextets (unat a) (unat b) (unat c) = (p, q, r, s)"
    by (cases "sextets (unat a) (unat b) (unat c)")
  note g = sextets_octets [OF unat_byte [of a] unat_byte [of b] unat_byte [of c] e]
  show ?case using g(1-4) "4.IH" by (simp add: e sextet_char_in)
qed

lemma concat_lines64: "concat (lines64 s) = s"
proof (induction s rule: lines64.induct)
  case 1
  then show ?case by simp
next
  case (2 c cs)
  have "concat (lines64 (c # cs)) = take 64 (c # cs) @ concat (lines64 (drop 64 (c # cs)))"
    by (simp del: take_Cons_numeral drop_Cons_numeral)
  also have "\<dots> = take 64 (c # cs) @ drop 64 (c # cs)"
    using "2.IH" by simp
  finally show ?case by (simp del: take_Cons_numeral drop_Cons_numeral)
qed

lemma set_lines64: "l \<in> set (lines64 s) \<Longrightarrow> set l \<subseteq> set s"
proof (induction s rule: lines64.induct)
  case 1
  then show ?case by simp
next
  case (2 c cs)
  from "2.prems" have "l = take 64 (c # cs) \<or> l \<in> set (lines64 (drop 64 (c # cs)))"
    by (simp del: take_Cons_numeral drop_Cons_numeral)
  then show ?case
  proof
    assume "l = take 64 (c # cs)"
    then show ?thesis using set_take_subset [of 64 "c # cs"] by simp
  next
    assume "l \<in> set (lines64 (drop 64 (c # cs)))"
    with "2.IH" have "set l \<subseteq> set (drop 64 (c # cs))" by simp
    then show ?thesis using set_drop_subset [of 64 "c # cs"] by blast
  qed
qed

lemma split_lines_line:
  "newline \<notin> set l \<Longrightarrow> split_lines (l @ newline # rest) = l # split_lines rest"
  by (induction l) auto

lemma split_lines_unlines:
  "\<forall>l \<in> set ls. newline \<notin> set l \<Longrightarrow> split_lines (unlines ls) = ls"
  by (induction ls) (simp_all add: unlines_def split_lines_line)

lemma base64_line:
  assumes "l \<in> set (lines64 (base64 bs))"
  shows "newline \<notin> set l" and "l \<noteq> ''-----END CERTIFICATE-----''"
proof -
  from assms have sub: "set l \<subseteq> insert (CHR ''='') (set alphabet)"
    using set_lines64 [of l "base64 bs"] set_base64 [of bs] by blast
  have "newline \<notin> insert (CHR ''='') (set alphabet)"
    by (simp add: newline_def alphabet_def)
  with sub show "newline \<notin> set l" by blast
  have "CHR ''-'' \<notin> insert (CHR ''='') (set alphabet)"
    by (simp add: alphabet_def)
  with sub have "CHR ''-'' \<notin> set l" by blast
  then show "l \<noteq> ''-----END CERTIFICATE-----''" by auto
qed

section \<open>The claims\<close>

text \<open>
  C1 (both variants aggregate a cleanup error with the originating error and return it).
  The aggregated variant does not: its deferred closures assign a local variable after the
  results are set. Below, \<^verbatim>\<open>db.Close()\<close> fails after a query without rows (the environment
  \<open>close_fails\<close>); the call is made, last in the list, and \<^verbatim>\<open>getCertificates\<close> returns
  \<^verbatim>\<open>nil, nil\<close>. The direct variant does what the claim says
  (\<open>getCertificates_direct_aggregates\<close>).
\<close>

theorem C1_aggregated_drops_cleanup_error:
  "getCertificates_aggregated close_fails ''example.com'' 1 =
     ([Sql_Open ''postgres'' dsn_aggregated, DB_PrepareContext certificateQuery_aggregated,
       Stmt_QueryContext ''example.com'' 1, Rows_Columns, Rows_Next, Rows_Close, Stmt_Close,
       DB_Close], [], [], None)"
  by (simp add: getCertificates_aggregated_def close_fails_def crt_sh_rows_def
      answer_aggregated_def no_rows_def)

text \<open>
  C2. For every limit \<open>L \<ge> 1\<close> and every domain name, \<^verbatim>\<open>getCertificates\<close> returns at most
  \<open>L\<close> rows and the process prints at most \<open>L\<close> certificate or row entries. The programs
  pass \<open>L\<close> on as \<^verbatim>\<open>$2\<close> and count nothing themselves, so the statement is about a server
  that evaluates the \<^verbatim>\<open>LIMIT $2\<close> of the statement sent; everything else the server and
  the certificate codec do is arbitrary (\<open>env\<close>, \<open>env'\<close>, \<open>cx\<close>).
\<close>

theorem C2_row_count_within_limit:
  assumes "1 \<le> L"
  shows "length (fst (snd (getCertificates_direct (env\<lparr>db_query := answer_direct tbl\<rparr>) d L))) \<le> nat L
    \<and> length (filter is_entry (out (main_direct (env\<lparr>db_query := answer_direct tbl\<rparr>) cx prog
          (Parsed \<lparr>flag_v = v, flag_n = L, args = [d], flag_pem = pem\<rparr>)))) \<le> nat L
    \<and> length (fst (snd (snd (getCertificates_aggregated
          (env'\<lparr>db_query := answer_aggregated ordered\<rparr>) d L)))) \<le> nat L
    \<and> length (filter is_entry (out (main_aggregated (env'\<lparr>db_query := answer_aggregated ordered\<rparr>) prog
          (Parsed \<lparr>flag_v = v, flag_n = L, args = [d]\<rparr>)))) \<le> nat L"
proof -
  let ?env = "env\<lparr>db_query := answer_direct tbl\<rparr>"
  let ?env' = "env'\<lparr>db_query := answer_aggregated ordered\<rparr>"
  have direct: "length (fst (snd (getCertificates_direct ?env d L))) \<le> nat L"
    using assms by (rule getCertificates_direct_count)
  have "length (filter is_entry (out (run_direct ?env cx prog
          (Parsed \<lparr>flag_v = v, flag_n = L, args = [d], flag_pem = pem\<rparr>)))) \<le>
        length (fst (snd (getCertificates_direct ?env d L)))"
    using run_direct_entries [of ?env cx prog "\<lparr>flag_v = v, flag_n = L, args = [d], flag_pem = pem\<rparr>"]
    by simp
  with direct have printed: "length (filter is_entry (out (main_direct ?env cx prog
          (Parsed \<lparr>flag_v = v, flag_n = L, args = [d], flag_pem = pem\<rparr>)))) \<le> nat L"
    by (simp add: main_direct_def out_finish_entries)
  have rows: "length (filter is_entry (fst (snd (getCertificates_aggregated ?env' d L)))) \<le> nat L"
    using getCertificates_aggregated_entries [of ?env' d L]
    by (simp add: answer_aggregated_def split: if_splits)
  then have printed': "length (filter is_entry (out (main_aggregated ?env' prog
          (Parsed \<lparr>flag_v = v, flag_n = L, args = [d]\<rparr>)))) \<le> nat L"
    by (simp add: main_aggregated_def out_finish_entries run_aggregated_entries)
  show ?thesis
    using direct printed printed' by (simp add: getCertificates_aggregated_nil)
qed

text \<open>C2 at the limit 2, over a table with three matching rows.\<close>

theorem C2_row_count_within_limit_witness:
  "(1::int) \<le> 2
   \<and> fst (snd (getCertificates_direct (crt_sh table4) ''example.com'' 2)) = [[0x30, 0x04], []]
   \<and> length (fst (snd (getCertificates_direct (crt_sh table4) ''example.com'' 2))) \<le> nat 2
   \<and> length (filter is_entry (out (main_aggregated (crt_sh_rows two_rows) ''findcert''
          (Parsed \<lparr>flag_v = False, flag_n = 2, args = [''example.com'']\<rparr>)))) \<le> nat 2"
proof -
  have h: "(1::int) \<le> 2" by simp
  have e: "crt_sh table4 = (crt_sh table4)\<lparr>db_query := answer_direct table4\<rparr>"
    by (simp add: crt_sh_def)
  have e': "crt_sh_rows two_rows = (crt_sh_rows two_rows)\<lparr>db_query := answer_aggregated two_rows\<rparr>"
    by (simp add: crt_sh_rows_def)
  have v: "fst (snd (getCertificates_direct (crt_sh table4) ''example.com'' 2)) = [[0x30, 0x04], []]"
    by (simp add: getCertificates_direct_def crt_sh_def answer_direct_def select_direct_def table4_def)
  show ?thesis
    using h v C2_row_count_within_limit [OF h, where env = "crt_sh table4" and tbl = table4
        and d = "''example.com''" and cx = x509 and prog = "''findcert''" and v = False
        and pem = False and env' = "crt_sh_rows two_rows" and ordered = two_rows]
    by (simp flip: e e')
qed

text \<open>
  C3 as stated (a wrong number of positional arguments prints a usage message). With no
  argument, and with two, the only line printed is the error that \<^verbatim>\<open>run\<close> returned, logged
  by \<^verbatim>\<open>log.Fatal\<close>; the usage text that \<^verbatim>\<open>run\<close> installs is not printed.
\<close>

theorem C3_usage_text_not_printed:
  "out (main_direct (crt_sh table4) x509 ''findcert''
          (Parsed \<lparr>flag_v = False, flag_n = 1, args = [], flag_pem = False\<rparr>)) =
     [Log_Fatal (Err ''expected 1 argument: domain name'')]
   \<and> filter is_usage (out (main_direct (crt_sh table4) x509 ''findcert''
          (Parsed \<lparr>flag_v = False, flag_n = 1, args = [], flag_pem = False\<rparr>))) = []
   \<and> filter is_usage (out (main_aggregated (crt_sh_rows two_rows) ''findcert''
          (Parsed \<lparr>flag_v = False, flag_n = 1, args = [''a.example'', ''b.example'']\<rparr>))) = []"
  by (simp add: main_direct_def main_aggregated_def run_direct_def run_aggregated_def finish_def
      errExpectedArguments_def with_status_def)

text \<open>
  C3, amended. For every invocation whose flags parse and whose number of positional
  arguments is not one, \<^verbatim>\<open>run\<close> returns the error "expected 1 argument: domain name" and
  prints nothing itself; \<^verbatim>\<open>main\<close> logs that error, as the only line, and exits with
  status 1; no call into \<^verbatim>\<open>database/sql\<close> is made.
\<close>

theorem C3_wrong_argument_count:
  assumes "length (args f) \<noteq> 1" and "length (args g) \<noteq> 1"
  shows "main_direct env cx prog (Parsed f) =
           \<lparr>log_flags = (if flag_v f then or LstdFlags Lshortfile else 0), calls = [],
            out = [Log_Fatal (Err ''expected 1 argument: domain name'')], exited = None,
            returned = Some (Err ''expected 1 argument: domain name''), status = 1\<rparr>
       \<and> main_aggregated env' prog (Parsed g) =
           \<lparr>log_flags = (if flag_v g then or LstdFlags Lshortfile else 0), calls = [],
            out = [Log_Fatal (Err ''expected 1 argument: domain name'')], exited = None,
            returned = Some (Err ''expected 1 argument: domain name''), status = 1\<rparr>"
  using assms
  by (simp add: main_direct_def main_aggregated_def run_direct_def run_aggregated_def finish_def
      errExpectedArguments_def with_status_def)

text \<open>C3 with no positional argument (direct) and with two (aggregated).\<close>

theorem C3_wrong_argument_count_witness:
  "length (args \<lparr>flag_v = True, flag_n = 1, args = [], flag_pem = True\<rparr>) \<noteq> 1
   \<and> length (args \<lparr>flag_v = False, flag_n = 3, args = [''a.example'', ''b.example'']\<rparr>) \<noteq> 1
   \<and> status (main_direct (crt_sh table4) x509 ''findcert''
          (Parsed \<lparr>flag_v = True, flag_n = 1, args = [], flag_pem = True\<rparr>)) = 1
   \<and> calls (main_aggregated (crt_sh_rows two_rows) ''findcert''
          (Parsed \<lparr>flag_v = False, flag_n = 3, args = [''a.example'', ''b.example'']\<rparr>)) = []"
proof -
  have f: "length (args \<lparr>flag_v = True, flag_n = 1, args = [], flag_pem = True\<rparr>) \<noteq> 1"
    by simp
  have g: "length (args \<lparr>flag_v = False, flag_n = 3, args = [''a.example'', ''b.example'']\<rparr>) \<noteq> 1"
    by simp
  show ?thesis
    using f g C3_wrong_argument_count [OF f g, where env = "crt_sh table4" and cx = x509
        and prog = "''findcert''" and env' = "crt_sh_rows two_rows"]
    by simp
qed

text \<open>
  C4 as stated (the direct statement filters by substring match on the domain name). The
  row named \<^verbatim>\<open>www.example.com\<close> contains \<^verbatim>\<open>example.com\<close>, the limit 10 leaves room, and
  its certificate \<open>[0x30, 0x02]\<close> is not among those returned.
\<close>

theorem C4_substring_row_not_selected:
  "contains_substring ''www.example.com'' ''example.com''
   \<and> fst (snd (getCertificates_direct (crt_sh table4) ''example.com'' 10)) =
       [[0x30, 0x04], [], [0x30, 0x01]]"
  by (simp add: getCertificates_direct_def crt_sh_def answer_direct_def select_direct_def table4_def)

text \<open>
  C4, amended. In the direct variant, for every domain name \<open>d\<close>, the rows selected are
  those whose \<^verbatim>\<open>name_value\<close> matches \<open>d\<close> as a \<^verbatim>\<open>LIKE\<close> pattern, with no wildcard added to
  \<open>d\<close> (so for a \<open>d\<close> without \<^verbatim>\<open>%\<close>, \<^verbatim>\<open>_\<close> and backslash: the rows whose \<^verbatim>\<open>name_value\<close>
  equals \<open>d\<close>), in descending order of \<^verbatim>\<open>certificate_id\<close>, the first \<open>n\<close> of them, and
  \<^verbatim>\<open>getCertificates\<close> returns their certificates in that order.
\<close>

theorem C4_direct_statement:
  assumes "sql_open env = None" and "0 \<le> n"
  shows "fst (snd (getCertificates_direct (env\<lparr>db_query := answer_direct tbl\<rparr>) d n)) =
           map certificate (select_direct tbl d n)
       \<and> select_direct tbl d n =
           take (nat n)
             (sort_key (\<lambda>r. - certificate_id r) (filter (\<lambda>r. like_match d (name_value r)) tbl))
       \<and> (wildcard_free d \<longrightarrow>
            select_direct tbl d n =
              take (nat n) (sort_key (\<lambda>r. - certificate_id r) (filter (\<lambda>r. name_value r = d) tbl)))
       \<and> sorted_wrt (\<ge>) (map certificate_id (select_direct tbl d n))
       \<and> length (select_direct tbl d n) \<le> nat n"
  using assms getCertificates_direct_answer [of n env tbl d] select_direct_descending [of tbl d n]
  by (simp add: select_direct_def like_match_wildcard_free)

text \<open>
  C4 for \<^verbatim>\<open>example.com\<close> and the limit 2: the rows 4 and 3; and for the pattern
  \<^verbatim>\<open>%example.com\<close>, which selects the row named \<^verbatim>\<open>www.example.com\<close> too.
\<close>

theorem C4_direct_statement_witness:
  "sql_open (crt_sh table4) = None \<and> (0::int) \<le> 2 \<and> wildcard_free ''example.com''
   \<and> fst (snd (getCertificates_direct (crt_sh table4) ''example.com'' 2)) =
       map certificate (select_direct table4 ''example.com'' 2)
   \<and> map certificate_id (select_direct table4 ''example.com'' 2) = [4, 3]
   \<and> \<not> wildcard_free ''%example.com''
   \<and> fst (snd (getCertificates_direct (crt_sh table4) ''%example.com'' 2)) =
       map certificate (select_direct table4 ''%example.com'' 2)
   \<and> map name_value (select_direct table4 ''%example.com'' 10) =
       [''example.com'', ''example.com'', ''www.example.com'', ''example.com'']"
proof -
  have o: "sql_open (crt_sh table4) = None" by (simp add: crt_sh_def)
  have n: "(0::int) \<le> 2" by simp
  have w: "wildcard_free ''example.com''" by simp
  have e: "(crt_sh table4)\<lparr>db_query := answer_direct table4\<rparr> = crt_sh table4"
    by (simp add: crt_sh_def)
  have t: "take (nat 2) (sort_key (\<lambda>r. - certificate_id r)
          (filter (\<lambda>r. name_value r = ''example.com'') table4)) =
        [\<lparr>certificate_id = 4, name_value = ''example.com'', certificate = [0x30, 0x04]\<rparr>,
         \<lparr>certificate_id = 3, name_value = ''example.com'', certificate = []\<rparr>]"
    by (simp add: table4_def)
  have p: "map name_value (select_direct table4 ''%example.com'' 10) =
       [''example.com'', ''example.com'', ''www.example.com'', ''example.com'']"
    by (simp add: select_direct_def table4_def)
  note A = C4_direct_statement [OF o n, of table4 "''example.com''"]
  note B = C4_direct_statement [OF o n, of table4 "''%example.com''"]
  from A have a1: "fst (snd (getCertificates_direct (crt_sh table4) ''example.com'' 2)) =
      map certificate (select_direct table4 ''example.com'' 2)"
    unfolding e by (rule conjunct1)
  from A w have "select_direct table4 ''example.com'' 2 =
      take (nat 2) (sort_key (\<lambda>r. - certificate_id r)
        (filter (\<lambda>r. name_value r = ''example.com'') table4))"
    by blast
  with t have a2: "map certificate_id (select_direct table4 ''example.com'' 2) = [4, 3]"
    by simp
  from B have b1: "fst (snd (getCertificates_direct (crt_sh table4) ''%example.com'' 2)) =
      map certificate (select_direct table4 ''%example.com'' 2)"
    unfolding e by (rule conjunct1)
  have nw: "\<not> wildcard_free ''%example.com''" by simp
  from o n w a1 a2 nw b1 p show ?thesis by blast
qed

text \<open>
  C5 as stated (in both variants \<^verbatim>\<open>getCertificates\<close> returns the rows of the cursor). The
  aggregated variant logs the two rows of the cursor and returns no row, without error.
\<close>

theorem C5_aggregated_returns_no_rows:
  "db_query (crt_sh_rows two_rows) certificateQuery_aggregated ''example.com'' 2 =
     Inr [Scanned row_a, Scanned row_b]
   \<and> snd (getCertificates_aggregated (crt_sh_rows two_rows) ''example.com'' 2) =
     ([Log_Row row_a, Log_Row row_b], [], None)"
  by (simp add: getCertificates_aggregated_def crt_sh_rows_def answer_aggregated_def two_rows_def)

text \<open>
  C5, amended. In the direct variant a \<^verbatim>\<open>getCertificates\<close> that returns no error returns
  the certificates of the cursor's rows, one per row, in cursor order. In the aggregated
  variant a \<^verbatim>\<open>getCertificates\<close> that returns no error returns an empty sequence and has
  logged one line per row of the cursor, in cursor order.
\<close>

theorem C5_rows_in_cursor_order:
  assumes "sql_open env = None"
    and "db_query env certificateQuery_direct d n = Inr rs"
    and "snd (snd (getCertificates_direct env d n)) = None"
    and "sql_open env' = None"
    and "db_query env' certificateQuery_aggregated d' n' = Inr rs'"
    and "snd (snd (snd (getCertificates_aggregated env' d' n'))) = None"
  shows "map Scanned (fst (snd (getCertificates_direct env d n))) = rs
       \<and> fst (snd (snd (getCertificates_aggregated env' d' n'))) = []
       \<and> (\<exists>rows. rs' = map Scanned rows
             \<and> fst (snd (getCertificates_aggregated env' d' n')) = map Log_Row rows)"
proof -
  obtain cs certs where "getCertificates_direct env d n = (cs, certs, None)"
    using assms(3) by (cases "getCertificates_direct env d n") simp
  then have direct: "map Scanned (fst (snd (getCertificates_direct env d n))) = rs"
    using getCertificates_direct_success [OF assms(1,2)] by simp
  obtain cs' ls certs' where "getCertificates_aggregated env' d' n' = (cs', ls, certs', None)"
    using assms(6) by (cases "getCertificates_aggregated env' d' n'") simp
  then have "\<exists>rows. rs' = map Scanned rows
      \<and> fst (snd (getCertificates_aggregated env' d' n')) = map Log_Row rows"
    using getCertificates_aggregated_success [OF assms(4,5)] by simp
  with direct show ?thesis by (simp add: getCertificates_aggregated_nil)
qed

text \<open>C5 over cursors of two rows.\<close>

theorem C5_rows_in_cursor_order_witness:
  "sql_open (crt_sh table4) = None
   \<and> db_query (crt_sh table4) certificateQuery_direct ''example.com'' 2 =
        Inr [Scanned [0x30, 0x04], Scanned []]
   \<and> snd (snd (getCertificates_direct (crt_sh table4) ''example.com'' 2)) = None
   \<and> sql_open (crt_sh_rows two_rows) = None
   \<and> db_query (crt_sh_rows two_rows) certificateQuery_aggregated ''example.com'' 2 =
        Inr [Scanned row_a, Scanned row_b]
   \<and> snd (snd (snd (getCertificates_aggregated (crt_sh_rows two_rows) ''example.com'' 2))) = None
   \<and> map Scanned (fst (snd (getCertificates_direct (crt_sh table4) ''example.com'' 2))) =
        [Scanned [0x30, 0x04], Scanned []]"
proof -
  have h1: "sql_open (crt_sh table4) = None" by (simp add: crt_sh_def)
  have h2: "db_query (crt_sh table4) certificateQuery_direct ''example.com'' 2 =
      Inr [Scanned [0x30, 0x04], Scanned []]"
    by (simp add: crt_sh_def answer_direct_def select_direct_def table4_def)
  have h3: "snd (snd (getCertificates_direct (crt_sh table4) ''example.com'' 2)) = None"
    by (simp add: getCertificates_direct_def crt_sh_def answer_direct_def select_direct_def
        table4_def Append_def)
  have h4: "sql_open (crt_sh_rows two_rows) = None" by (simp add: crt_sh_rows_def)
  have h5: "db_query (crt_sh_rows two_rows) certificateQuery_aggregated ''example.com'' 2 =
      Inr [Scanned row_a, Scanned row_b]"
    by (simp add: crt_sh_rows_def answer_aggregated_def two_rows_def)
  have h6: "snd (snd (snd (getCertificates_aggregated (crt_sh_rows two_rows) ''example.com'' 2))) = None"
    by (simp add: getCertificates_aggregated_def crt_sh_rows_def answer_aggregated_def two_rows_def)
  show ?thesis
    using h1 h2 h3 h4 h5 h6 C5_rows_in_cursor_order [OF h1 h2 h3 h4 h5 h6] by simp
qed

text \<open>
  C6. For every byte sequence, the PEM text with the type label \<^verbatim>\<open>CERTIFICATE\<close> decodes to
  that label and exactly those bytes. Encoder and decoder are the ones modelled from the
  spec above; the program's part is the call, with that label and the unchanged bytes of
  a row (\<open>print_ders_pem_blocks\<close>).
\<close>

theorem C6_pem_round_trip:
  "pem_decode (pem_encode ''CERTIFICATE'' bs) = Some (''CERTIFICATE'', bs)"
proof -
  let ?body = "lines64 (base64 bs)"
  let ?begin = "''-----BEGIN CERTIFICATE-----''"
  let ?end = "''-----END CERTIFICATE-----''"
  have "\<forall>l \<in> set (?begin # ?body @ [?end]). newline \<notin> set l"
    using base64_line(1) [of _ bs] by (auto simp add: newline_def)
  then have lines: "split_lines (pem_encode ''CERTIFICATE'' bs) = ?begin # ?body @ [?end]"
    unfolding pem_encode_def using split_lines_unlines [of "?begin # ?body @ [?end]"] by simp
  have label: "label_of ?begin = Some ''CERTIFICATE''"
    by (simp add: label_of_def)
  have body: "takeWhile (\<lambda>l. l \<noteq> ?end) (?body @ [?end]) = ?body"
    using base64_line(2) [of _ bs] by simp
  show ?thesis
    by (simp add: pem_decode_def lines label body concat_lines64 unbase64_base64)
qed

text \<open>
  C7 as stated (no certificate entry is printed on a run that exits with an error). Direct
  variant: of the two rows selected the first holds a certificate and the second does
  not; the entry of the first is printed and the process exits with status 1. Aggregated
  variant: the second row cannot be scanned, the first is printed and the process exits
  with status 1.
\<close>

theorem C7_entry_printed_before_failure:
  "filter is_entry (out (main_direct (crt_sh table2) x509 ''findcert''
      (Parsed \<lparr>flag_v = False, flag_n = 2, args = [''example.com''], flag_pem = False\<rparr>))) =
     [Log_Cert ''example.com'' 1793565442]
   \<and> status (main_direct (crt_sh table2) x509 ''findcert''
      (Parsed \<lparr>flag_v = False, flag_n = 2, args = [''example.com''], flag_pem = False\<rparr>)) = 1
   \<and> filter is_entry (out (main_aggregated (crt_sh_rows null_second) ''findcert''
      (Parsed \<lparr>flag_v = False, flag_n = 2, args = [''example.com'']\<rparr>))) = [Log_Row row_a]
   \<and> status (main_aggregated (crt_sh_rows null_second) ''findcert''
      (Parsed \<lparr>flag_v = False, flag_n = 2, args = [''example.com'']\<rparr>)) = 1"
proof -
  have "example_der \<noteq> [0x30, 0x01]" by (simp add: example_der_def)
  then have "[0x30, 0x01] \<noteq> example_der" by (rule not_sym)
  then show ?thesis
    by (simp add: main_direct_def main_aggregated_def run_direct_def run_aggregated_def finish_def
        getCertificates_direct_def getCertificates_aggregated_def crt_sh_def crt_sh_rows_def
        answer_direct_def answer_aggregated_def select_direct_def table2_def null_second_def
        x509_def Append_def with_status_def)
qed

text \<open>
  C7, amended. For a run whose arguments and connection are in order and whose query
  answers with rows that are read to their end (\<^verbatim>\<open>rows.Err()\<close> would return \<^verbatim>\<open>nil\<close>): if the
  process exits with status 0, it has printed one entry for every row, in order;
  otherwise it exits with status 1, the error that \<^verbatim>\<open>run\<close> returned is logged once, and
  the entries printed before are those of the first rows, in order. A run in which
  reading the rows is cut short is left out here; it is the subject of C9.
\<close>

theorem C7_all_rows_or_failure:
  assumes "args f = [d]" and "sql_open env = None"
    and "db_query env certificateQuery_direct d (flag_n f) = Inr rs"
    and "rows_err env = None"
    and "args g = [d']" and "sql_open env' = None"
    and "db_query env' certificateQuery_aggregated d' (flag_n g) = Inr rs'"
    and "rows_err env' = None"
  shows "(status (main_direct env cx prog (Parsed f)) = 0 \<longrightarrow>
            list_all2 (\<lambda>s l. \<exists>der c. s = Scanned der \<and> ParseCertificate cx der = Inr c
                \<and> l = Log_Cert (CommonName c) (NotBefore c))
              rs (filter is_entry (out (main_direct env cx prog (Parsed f)))))
       \<and> (status (main_direct env cx prog (Parsed f)) \<noteq> 0 \<longrightarrow>
            status (main_direct env cx prog (Parsed f)) = 1
            \<and> (\<exists>e. returned (main_direct env cx prog (Parsed f)) = Some e
                 \<and> filter is_fatal (out (main_direct env cx prog (Parsed f))) = [Log_Fatal e])
            \<and> list_all2 (\<lambda>s l. \<exists>der c. s = Scanned der \<and> ParseCertificate cx der = Inr c
                \<and> l = Log_Cert (CommonName c) (NotBefore c))
              (take (length (filter is_entry (out (main_direct env cx prog (Parsed f))))) rs)
              (filter is_entry (out (main_direct env cx prog (Parsed f)))))
       \<and> (status (main_aggregated env' prog (Parsed g)) = 0 \<longrightarrow>
            list_all2 (\<lambda>s l. \<exists>r. s = Scanned r \<and> l = Log_Row r)
              rs' (filter is_entry (out (main_aggregated env' prog (Parsed g)))))
       \<and> (status (main_aggregated env' prog (Parsed g)) \<noteq> 0 \<longrightarrow>
            status (main_aggregated env' prog (Parsed g)) = 1
            \<and> (\<exists>e. returned (main_aggregated env' prog (Parsed g)) = Some e
                 \<and> filter is_fatal (out (main_aggregated env' prog (Parsed g))) = [Log_Fatal e])
            \<and> list_all2 (\<lambda>s l. \<exists>r. s = Scanned r \<and> l = Log_Row r)
              (take (length (filter is_entry (out (main_aggregated env' prog (Parsed g))))) rs')
              (filter is_entry (out (main_aggregated env' prog (Parsed g)))))"
proof -
  let ?r = "run_direct env cx prog (Parsed f)"
  let ?r' = "run_aggregated env' prog (Parsed g)"
  note fin = finish_returned [OF run_direct_not_exited run_direct_no_fatal, of env cx prog f]
  note fin' = finish_returned [OF run_aggregated_not_exited run_aggregated_no_fatal, of env' prog g]
  have ok: "returned ?r = None \<Longrightarrow>
      list_all2 (\<lambda>s l. \<exists>der c. s = Scanned der \<and> ParseCertificate cx der = Inr c
          \<and> l = Log_Cert (CommonName c) (NotBefore c)) rs (filter is_entry (out ?r))"
    by (rule run_direct_success [OF assms(1-3)])
  have ok': "returned ?r' = None \<Longrightarrow>
      list_all2 (\<lambda>s l. \<exists>r. s = Scanned r \<and> l = Log_Row r) rs' (filter is_entry (out ?r'))"
    by (rule run_aggregated_success [OF assms(5-7)])
  note pre = run_direct_prefix [OF assms(1-3), of cx prog]
  note pre' = run_aggregated_prefix [OF assms(5-7), of prog]
  show ?thesis
    using ok ok' pre pre' fin fin'
    by (simp add: main_direct_def main_aggregated_def out_finish_entries split: option.splits)
qed

text \<open>
  C7 on a run that succeeds (direct, one certificate) and on one that fails at the second
  row (aggregated).
\<close>

theorem C7_all_rows_or_failure_witness:
  "args \<lparr>flag_v = False, flag_n = 1, args = [''example.com''], flag_pem = True\<rparr> = [''example.com'']
   \<and> sql_open (crt_sh table2) = None
   \<and> db_query (crt_sh table2) certificateQuery_direct ''example.com'' 1 = Inr [Scanned example_der]
   \<and> rows_err (crt_sh table2) = None
   \<and> args \<lparr>flag_v = False, flag_n = 2, args = [''example.com'']\<rparr> = [''example.com'']
   \<and> sql_open (crt_sh_rows null_second) = None
   \<and> db_query (crt_sh_rows null_second) certificateQuery_aggregated ''example.com'' 2 =
        Inr (null_second ''example.com'')
   \<and> rows_err (crt_sh_rows null_second) = None
   \<and> status (main_direct (crt_sh table2) x509 ''findcert''
        (Parsed \<lparr>flag_v = False, flag_n = 1, args = [''example.com''], flag_pem = True\<rparr>)) = 0
   \<and> filter is_entry (out (main_direct (crt_sh table2) x509 ''findcert''
        (Parsed \<lparr>flag_v = False, flag_n = 1, args = [''example.com''], flag_pem = True\<rparr>))) =
        [Log_Cert ''example.com'' 1793565442]
   \<and> status (main_aggregated (crt_sh_rows null_second) ''findcert''
        (Parsed \<lparr>flag_v = False, flag_n = 2, args = [''example.com'']\<rparr>)) = 1"
proof -
  let ?f = "\<lparr>flag_v = False, flag_n = 1, args = [''example.com''], flag_pem = True\<rparr>"
  let ?g = "\<lparr>flag_v = False, flag_n = 2, args = [''example.com'']\<rparr>"
  have f: "args ?f = [''example.com'']" and g: "args ?g = [''example.com'']"
    by simp_all
  have o: "sql_open (crt_sh table2) = None" and e: "rows_err (crt_sh table2) = None"
    by (simp_all add: crt_sh_def)
  have o': "sql_open (crt_sh_rows null_second) = None"
    and e': "rows_err (crt_sh_rows null_second) = None"
    by (simp_all add: crt_sh_rows_def)
  have q: "db_query (crt_sh table2) certificateQuery_direct ''example.com'' (flag_n ?f) =
      Inr [Scanned example_der]"
    by (simp add: crt_sh_def answer_direct_def select_direct_def table2_def)
  have q': "db_query (crt_sh_rows null_second) certificateQuery_aggregated ''example.com'' (flag_n ?g) =
      Inr (null_second ''example.com'')"
    by (simp add: crt_sh_rows_def answer_aggregated_def null_second_def)
  have s: "status (main_direct (crt_sh table2) x509 ''findcert'' (Parsed ?f)) = 0"
    by (simp add: main_direct_def run_direct_def finish_def getCertificates_direct_def crt_sh_def
        answer_direct_def select_direct_def table2_def x509_def Append_def with_status_def)
  have s': "status (main_aggregated (crt_sh_rows null_second) ''findcert'' (Parsed ?g)) \<noteq> 0"
    by (simp add: main_aggregated_def run_aggregated_def finish_def getCertificates_aggregated_def
        crt_sh_rows_def answer_aggregated_def null_second_def with_status_def)
  have x: "ParseCertificate x509 example_der =
      Inr \<lparr>CommonName = ''example.com'', NotBefore = 1793565442\<rparr>"
    by (simp add: x509_def)
  from C7_all_rows_or_failure [OF f o q e g o' q' e', of x509 "''findcert''"] s s'
  have "list_all2 (\<lambda>s l. \<exists>der c. s = Scanned der \<and> ParseCertificate x509 der = Inr c
            \<and> l = Log_Cert (CommonName c) (NotBefore c))
          [Scanned example_der]
          (filter is_entry (out (main_direct (crt_sh table2) x509 ''findcert'' (Parsed ?f))))"
    and "status (main_aggregated (crt_sh_rows null_second) ''findcert'' (Parsed ?g)) = 1"
    by simp_all
  then show ?thesis
    using f g o o' e e' q q' s x by (auto simp add: list_all2_Cons1)
qed




text \<open>
  C9 (a cancellation before the query completes is reported as an error and the process
  exits nonzero). Where the cancellation makes \<^verbatim>\<open>sql.Open\<close> or the query call return an
  error, both variants do that (\<open>query_error_reported_direct\<close>,
  \<open>query_error_reported_aggregated\<close>, \<open>open_error_reported\<close>). Where it arrives while the
  rows are read, \<^verbatim>\<open>rows.Next()\<close> returns false and neither variant asks \<^verbatim>\<open>rows.Err()\<close>:
  below the server has two rows, the cursor stops after the first with the context's
  error, and the process prints the one entry and exits with status 0.
\<close>

theorem C9_cancelled_while_reading_rows:
  "db_query (crt_sh table2) certificateQuery_direct ''example.com'' 2 =
     Inr [Scanned example_der, Scanned [0x30, 0x01]]
   \<and> db_query cancelled_direct certificateQuery_direct ''example.com'' 2 = Inr [Scanned example_der]
   \<and> rows_err cancelled_direct = Some (Err ''context canceled'')
   \<and> out (main_direct cancelled_direct x509 ''findcert''
        (Parsed \<lparr>flag_v = False, flag_n = 2, args = [''example.com''], flag_pem = False\<rparr>)) =
       [Log_Cert ''example.com'' 1793565442]
   \<and> status (main_direct cancelled_direct x509 ''findcert''
        (Parsed \<lparr>flag_v = False, flag_n = 2, args = [''example.com''], flag_pem = False\<rparr>)) = 0
   \<and> db_query (crt_sh_rows two_rows) certificateQuery_aggregated ''example.com'' 2 =
     Inr [Scanned row_a, Scanned row_b]
   \<and> db_query cancelled_aggregated certificateQuery_aggregated ''example.com'' 2 = Inr [Scanned row_a]
   \<and> rows_err cancelled_aggregated = Some (Err ''context canceled'')
   \<and> out (main_aggregated cancelled_aggregated ''findcert''
        (Parsed \<lparr>flag_v = False, flag_n = 2, args = [''example.com'']\<rparr>)) =
       [Log_Row row_a, Log_Certs []]
   \<and> status (main_aggregated cancelled_aggregated ''findcert''
        (Parsed \<lparr>flag_v = False, flag_n = 2, args = [''example.com'']\<rparr>)) = 0"
  by (simp add: main_direct_def main_aggregated_def run_direct_def run_aggregated_def finish_def
      getCertificates_direct_def getCertificates_aggregated_def cancelled_direct_def
      cancelled_aggregated_def cut_short_def crt_sh_def crt_sh_rows_def answer_direct_def
      answer_aggregated_def select_direct_def table2_def two_rows_def x509_def Append_def
      with_status_def)

text \<open>
  C10. With one positional argument, whatever integer \<^verbatim>\<open>-n\<close> holds, \<^verbatim>\<open>run\<close> does not
  return the error for a wrong argument count, makes exactly the calls of
  \<^verbatim>\<open>getCertificates\<close> on that domain name and that integer, and, once the connection is
  open (and the statement prepared), sends the integer unchanged as the parameter \<^verbatim>\<open>$2\<close>.
\<close>

theorem C10_limit_passed_unchanged:
  assumes "args f = [d]" and "args g = [d']"
  shows "returned (run_direct env cx prog (Parsed f)) \<noteq> Some errExpectedArguments
       \<and> calls (run_direct env cx prog (Parsed f)) = fst (getCertificates_direct env d (flag_n f))
       \<and> (sql_open env = None \<longrightarrow>
            DB_QueryContext certificateQuery_direct d (flag_n f) \<in>
              set (calls (run_direct env cx prog (Parsed f))))
       \<and> returned (run_aggregated env' prog (Parsed g)) \<noteq> Some (Err ''expected 1 argument: domain name'')
       \<and> calls (run_aggregated env' prog (Parsed g)) =
            fst (getCertificates_aggregated env' d' (flag_n g))
       \<and> (sql_open env' = None \<and> db_prepare env' certificateQuery_aggregated = None \<longrightarrow>
            Stmt_QueryContext d' (flag_n g) \<in> set (calls (run_aggregated env' prog (Parsed g))))"
proof -
  have r: "returned (run_direct env cx prog (Parsed f)) \<noteq> Some errExpectedArguments"
    using assms(1) print_ders_not_Err [of cx "flag_pem f"]
    by (auto simp add: run_direct_def Let_def errExpectedArguments_def
        split: prod.splits option.splits)
  have c: "calls (run_direct env cx prog (Parsed f)) = fst (getCertificates_direct env d (flag_n f))"
    using assms(1) by (auto simp add: run_direct_def Let_def split: prod.splits option.splits)
  have r': "returned (run_aggregated env' prog (Parsed g)) \<noteq> Some (Err ''expected 1 argument: domain name'')"
    using assms(2) by (auto simp add: run_aggregated_def Let_def split: prod.splits option.splits)
  have c': "calls (run_aggregated env' prog (Parsed g)) =
      fst (getCertificates_aggregated env' d' (flag_n g))"
    using assms(2) by (auto simp add: run_aggregated_def Let_def split: prod.splits option.splits)
  show ?thesis
    using r c r' c' getCertificates_direct_not_nil_calls [of env d "flag_n f"]
      getCertificates_aggregated_query_call [of env' d' "flag_n g"]
    by simp
qed

text \<open>C10 with \<^verbatim>\<open>-n -5\<close> (direct) and \<^verbatim>\<open>-n 0\<close> (aggregated).\<close>

theorem C10_limit_passed_unchanged_witness:
  "args \<lparr>flag_v = False, flag_n = - 5, args = [''example.com''], flag_pem = False\<rparr> = [''example.com'']
   \<and> args \<lparr>flag_v = False, flag_n = 0, args = [''example.com'']\<rparr> = [''example.com'']
   \<and> DB_QueryContext certificateQuery_direct ''example.com'' (- 5) \<in>
        set (calls (run_direct (crt_sh table4) x509 ''findcert''
          (Parsed \<lparr>flag_v = False, flag_n = - 5, args = [''example.com''], flag_pem = False\<rparr>)))
   \<and> Stmt_QueryContext ''example.com'' 0 \<in>
        set (calls (run_aggregated (crt_sh_rows two_rows) ''findcert''
          (Parsed \<lparr>flag_v = False, flag_n = 0, args = [''example.com'']\<rparr>)))"
proof -
  have f: "args \<lparr>flag_v = False, flag_n = - 5, args = [''example.com''], flag_pem = False\<rparr> = [''example.com'']"
    by simp
  have g: "args \<lparr>flag_v = False, flag_n = 0, args = [''example.com'']\<rparr> = [''example.com'']"
    by simp
  have o: "sql_open (crt_sh table4) = None" "sql_open (crt_sh_rows two_rows) = None"
    "db_prepare (crt_sh_rows two_rows) certificateQuery_aggregated = None"
    by (simp_all add: crt_sh_def crt_sh_rows_def)
  show ?thesis
    using f g o C10_limit_passed_unchanged [OF f g, where env = "crt_sh table4" and cx = x509
        and prog = "''findcert''" and env' = "crt_sh_rows two_rows"]
    by auto
qed

end
